theory Spec2Isabelle
  imports Complex_Main "HOL-Library.Sublist"
begin

section \<open>JavaScript values\<close>

text \<open>
  The values that flow through \<^verbatim>\<open>src/protocols/index.js\<close> and \<^verbatim>\<open>src/web3.js\<close>.
  A number is an IEEE double: every finite double is a rational, and the three
  non-finite values are kept apart, since \<^verbatim>\<open>isFinite\<close> and truthiness tell them from
  the rest (\<open>Fin 0\<close> stands for both zeros, which JavaScript treats alike here).
\<close>

datatype jsnum = Fin rat | PosInfinity | NegInfinity | NaN

text \<open>
  A function value is known by its identity only: a closure the caller supplied, or the
  \<^verbatim>\<open>rawCall\<close> method of an \<^verbatim>\<open>HttpProtocol\<close> instance. What a function does when
  called is given separately (see \<open>transport\<close> below).
\<close>

text \<open>
  Modelled from the spec: \<open>HttpRawCall url\<close> is the method \<^verbatim>\<open>rawCall\<close> of the
  \<^verbatim>\<open>HttpProtocol\<close> made for \<open>url\<close>. The class (\<^verbatim>\<open>src/protocols/http.js\<close>) is not
  among the sources; the spec describes it as the transport collaborator, ``a
  \<^verbatim>\<open>rawCall(method, params) -> Promise<Result>\<close> capability''.
\<close>

datatype fn = Closure nat | HttpRawCall string

text \<open>
  An object is an association list of its own properties (the first binding of a name is
  the effective one).
\<close>

text \<open>
  Modelled from the spec: \<open>JHttpProtocol url\<close> is the instance that
  \<^verbatim>\<open>new HttpProtocol(url)\<close> yields. The class (\<^verbatim>\<open>src/protocols/http.js\<close>) is not
  among the sources. The spec describes it as the transport collaborator, ``a
  \<^verbatim>\<open>rawCall(method, params) -> Promise<Result>\<close> capability'', created from a URL
  string; so an instance is kept opaque, remembers its URL, and exposes a function-valued
  \<^verbatim>\<open>rawCall\<close>. Its constructor is taken not to throw.
\<close>

datatype jsval =
    JUndefined
  | JNull
  | JBool bool
  | JNum jsnum
  | JStr string
  | JArr "jsval list"
  | JObj "(string \<times> jsval) list"
  | JFun fn
  | JHttpProtocol string

datatype error = Error string | TypeError string | Reason jsval

text \<open>The \<^verbatim>\<open>typeof\<close> operator; \<^verbatim>\<open>typeof null\<close> is \<^verbatim>\<open>'object'\<close>, as for arrays.\<close>

fun typeof :: "jsval \<Rightarrow> string" where
  "typeof JUndefined = ''undefined''"
| "typeof JNull = ''object''"
| "typeof (JBool b) = ''boolean''"
| "typeof (JNum n) = ''number''"
| "typeof (JStr s) = ''string''"
| "typeof (JArr xs) = ''object''"
| "typeof (JObj ps) = ''object''"
| "typeof (JFun f) = ''function''"
| "typeof (JHttpProtocol url) = ''object''"

text \<open>
  Truthiness: \<^verbatim>\<open>undefined\<close>, \<^verbatim>\<open>null\<close>, \<^verbatim>\<open>false\<close>, \<^verbatim>\<open>0\<close>, \<^verbatim>\<open>NaN\<close> and \<^verbatim>\<open>''\<close>
  are falsy, everything else is truthy.
\<close>

fun truthy :: "jsval \<Rightarrow> bool" where
  "truthy JUndefined = False"
| "truthy JNull = False"
| "truthy (JBool b) = b"
| "truthy (JNum n) = (n \<noteq> Fin 0 \<and> n \<noteq> NaN)"
| "truthy (JStr s) = (s \<noteq> [])"
| "truthy (JArr xs) = True"
| "truthy (JObj ps) = True"
| "truthy (JFun f) = True"
| "truthy (JHttpProtocol url) = True"

text \<open>
  Member access \<^verbatim>\<open>v.name\<close>. Reading a property of \<^verbatim>\<open>undefined\<close> or \<^verbatim>\<open>null\<close>
  throws a TypeError; a missing property reads as \<^verbatim>\<open>undefined\<close>. Properties that
  primitives, arrays and functions inherit from their prototypes are not modelled (the
  only name the program reads is \<^verbatim>\<open>rawCall\<close>, which none of them has).
\<close>

text \<open>
  Modelled from the spec: the case of an \<^verbatim>\<open>HttpProtocol\<close> instance
  (\<^verbatim>\<open>src/protocols/http.js\<close> is not among the sources), whose one known property is
  the \<^verbatim>\<open>rawCall\<close> capability that the spec gives the transport collaborator.
\<close>

fun member :: "jsval \<Rightarrow> string \<Rightarrow> error + jsval" where
  "member JUndefined name = Inl (TypeError ''Cannot read properties of undefined'')"
| "member JNull name = Inl (TypeError ''Cannot read properties of null'')"
| "member (JObj ps) name = Inr (case map_of ps name of Some v \<Rightarrow> v | None \<Rightarrow> JUndefined)"
| "member (JHttpProtocol url) name =
     Inr (if name = ''rawCall'' then JFun (HttpRawCall url) else JUndefined)"
| "member v name = Inr JUndefined"

section \<open>Protocol selection (\<^verbatim>\<open>src/protocols/index.js\<close>)\<close>

text \<open>
  The test \<^verbatim>\<open>typeof protocol === 'string'\<close> is the case \<open>JStr url\<close> (lemma
  \<open>typeof_string\<close> below), which also names the string handed to the constructor.
\<close>

definition initProtocol :: "jsval \<Rightarrow> error + jsval" where
  "initProtocol p =
     (if \<not> truthy p then Inl (Error ''protocol cannot be undefined.'')
      else case p of
        JStr url \<Rightarrow> Inr (JHttpProtocol url)
      | _ \<Rightarrow>
        (case member p ''rawCall'' of
           Inl e \<Rightarrow> Inl e
         | Inr rc \<Rightarrow>
             if \<not> truthy rc \<or> typeof rc \<noteq> ''function''
             then Inl (Error ''protocol is not a compatible Web3 Provider.'')
             else Inr p))"

section \<open>The Web3 class (\<^verbatim>\<open>src/web3.js\<close>)\<close>

text \<open>
  Of the instance's fields only \<^verbatim>\<open>protocol\<close> matters to the methods below; the
  fields \<^verbatim>\<open>encoder\<close>, \<^verbatim>\<open>decoder\<close> and \<^verbatim>\<open>utils\<close> hold module references.
\<close>

record web3 =
  protocol :: jsval

definition Web3 :: "jsval \<Rightarrow> error + web3" where
  "Web3 p = (case initProtocol p of Inl e \<Rightarrow> Inl e | Inr q \<Rightarrow> Inr \<lparr>protocol = q\<rparr>)"

section \<open>The transport\<close>

text \<open>
  A call \<^verbatim>\<open>rawCall(method, params)\<close> either throws or returns a promise; the promise is
  fulfilled with a value, rejected with a reason, or never settles. This is the contract
  every method's documentation states (\<^verbatim>\<open>@return {Promise}\<close>); a transport that
  returns something other than a promise is outside the model.
\<close>

datatype 'a promise = Fulfilled 'a | Rejected error | Pending

text \<open>
  One issued call: the method name and the parameter array, \<open>None\<close> when the call
  passes no second argument. The log of issued calls is the only state.
\<close>

type_synonym rpc_call = "string \<times> jsval list option"

text \<open>
  What a function does when called as \<^verbatim>\<open>rawCall\<close>; the answer may depend on the calls
  issued before.
\<close>

type_synonym transport = "rpc_call list \<Rightarrow> string \<Rightarrow> jsval list option \<Rightarrow> error + jsval promise"

text \<open>
  \<^verbatim>\<open>protocol.rawCall(method, params)\<close>: read the property, call it if it is a function
  (which logs the call), throw a TypeError otherwise. \<open>W\<close> gives every function value
  its behaviour.
\<close>

definition rawCall ::
  "(fn \<Rightarrow> transport) \<Rightarrow> jsval \<Rightarrow> string \<Rightarrow> jsval list option \<Rightarrow> rpc_call list
     \<Rightarrow> (error + jsval promise) \<times> rpc_call list" where
  "rawCall W p method params calls =
     (case member p ''rawCall'' of
        Inl e \<Rightarrow> (Inl e, calls)
      | Inr (JFun f) \<Rightarrow> (W f calls method params, calls @ [(method, params)])
      | Inr _ \<Rightarrow> (Inl (TypeError ''this.protocol.rawCall is not a function''), calls))"

text \<open>\<^verbatim>\<open>promise.then(f)\<close> for a callback that returns a plain value or throws.\<close>

fun then_promise :: "'a promise \<Rightarrow> ('a \<Rightarrow> error + 'b) \<Rightarrow> 'b promise" where
  "then_promise (Fulfilled v) f = (case f v of Inl e \<Rightarrow> Rejected e | Inr r \<Rightarrow> Fulfilled r)"
| "then_promise (Rejected e) f = Rejected e"
| "then_promise Pending f = Pending"

text \<open>A default parameter value replaces an argument that is \<^verbatim>\<open>undefined\<close> or left out.\<close>

definition orDefault :: "jsval \<Rightarrow> jsval \<Rightarrow> jsval" where
  "orDefault arg d = (if arg = JUndefined then d else arg)"

text \<open>The lodash predicates of line 1 of \<^verbatim>\<open>web3.js\<close>.\<close>

definition isFinite :: "jsval \<Rightarrow> bool" where
  "isFinite v = (case v of JNum (Fin q) \<Rightarrow> True | _ \<Rightarrow> False)"

definition isString :: "jsval \<Rightarrow> bool" where
  "isString v = (case v of JStr s \<Rightarrow> True | _ \<Rightarrow> False)"

definition isArray :: "jsval \<Rightarrow> bool" where
  "isArray v = (case v of JArr xs \<Rightarrow> True | _ \<Rightarrow> False)"

section \<open>Methods of Web3\<close>

type_synonym 'a call = "rpc_call list \<Rightarrow> 'a \<times> rpc_call list"

text \<open>
  \<^verbatim>\<open>isConnected\<close> is an \<^verbatim>\<open>async\<close> function: it returns a promise and cannot throw
  to its caller. The \<^verbatim>\<open>try\<close> block covers both a throwing call and a rejected
  promise under \<^verbatim>\<open>await\<close>.
\<close>

definition isConnected :: "(fn \<Rightarrow> transport) \<Rightarrow> web3 \<Rightarrow> jsval promise call" where
  "isConnected W this calls =
     (case rawCall W (protocol this) ''getnetworkinfo'' None calls of
        (Inl err, calls') \<Rightarrow> (Fulfilled (JBool False), calls')
      | (Inr (Fulfilled res), calls') \<Rightarrow> (Fulfilled (JBool (typeof res = ''object'')), calls')
      | (Inr (Rejected err), calls') \<Rightarrow> (Fulfilled (JBool False), calls')
      | (Inr Pending, calls') \<Rightarrow> (Pending, calls'))"

text \<open>
  The pass-through methods, in the order of the source. Each returns what
  \<^verbatim>\<open>this.protocol.rawCall\<close> returns; a method without parameters passes no parameter
  array.
\<close>

definition getblock :: "(fn \<Rightarrow> transport) \<Rightarrow> web3 \<Rightarrow> jsval \<Rightarrow> jsval \<Rightarrow> (error + jsval promise) call" where
  "getblock W this blockHash verbose =
     rawCall W (protocol this) ''getblock'' (Some [blockHash, orDefault verbose (JBool True)])"

definition getblockchaininfo :: "(fn \<Rightarrow> transport) \<Rightarrow> web3 \<Rightarrow> (error + jsval promise) call" where
  "getblockchaininfo W this =
     rawCall W (protocol this) ''getblockchaininfo'' None"

definition getblockcount :: "(fn \<Rightarrow> transport) \<Rightarrow> web3 \<Rightarrow> (error + jsval promise) call" where
  "getblockcount W this =
     rawCall W (protocol this) ''getblockcount'' None"

definition getblockhash :: "(fn \<Rightarrow> transport) \<Rightarrow> web3 \<Rightarrow> jsval \<Rightarrow> (error + jsval promise) call" where
  "getblockhash W this blockNum =
     rawCall W (protocol this) ''getblockhash'' (Some [blockNum])"

definition gettransactionreceipt :: "(fn \<Rightarrow> transport) \<Rightarrow> web3 \<Rightarrow> jsval \<Rightarrow> (error + jsval promise) call" where
  "gettransactionreceipt W this txid =
     rawCall W (protocol this) ''gettransactionreceipt'' (Some [txid])"

definition listcontracts :: "(fn \<Rightarrow> transport) \<Rightarrow> web3 \<Rightarrow> jsval \<Rightarrow> jsval \<Rightarrow> (error + jsval promise) call" where
  "listcontracts W this startingAcctIndex maxDisplay =
     rawCall W (protocol this) ''listcontracts'' (Some [orDefault startingAcctIndex (JNum (Fin 1)), orDefault maxDisplay (JNum (Fin 20))])"

text \<open>
  \<^verbatim>\<open>searchlogs\<close> (lines 120 to 148). \<^verbatim>\<open>Decoder.decodeSearchLog\<close> lives in
  \<^verbatim>\<open>src/decoder.js\<close>, which is not among the sources: it is the parameter
  \<open>decodeSearchLog\<close>, a function of three arguments that returns a value or throws.
\<close>

type_synonym decoder = "jsval \<Rightarrow> jsval \<Rightarrow> jsval \<Rightarrow> error + jsval"

definition searchlogs ::
  "decoder \<Rightarrow> (fn \<Rightarrow> transport) \<Rightarrow> web3 \<Rightarrow> jsval \<Rightarrow> jsval \<Rightarrow> jsval \<Rightarrow> jsval \<Rightarrow> jsval \<Rightarrow> jsval
     \<Rightarrow> (error + jsval promise) call" where
  "searchlogs decodeSearchLog W this fromBlock toBlock addresses topics contractMetadata
       removeHexPrefix calls =
     (if \<not> isFinite fromBlock then (Inl (Error ''fromBlock must be a number''), calls)
      else if \<not> isFinite toBlock then (Inl (Error ''toBlock must be a number.''), calls)
      else
        (case (if isString addresses then Inr (JObj [(''addresses'', JArr [addresses])])
               else if isArray addresses then Inr (JObj [(''addresses'', addresses)])
               else Inl (Error ''addresses must be a string or an array.'')) of
           Inl e \<Rightarrow> (Inl e, calls)
         | Inr addrObj \<Rightarrow>
         (case (if isString topics then Inr (JObj [(''topics'', JArr [topics])])
                else if isArray topics then Inr (JObj [(''topics'', topics)])
                else Inl (Error ''topics must be a string or an array.'')) of
            Inl e \<Rightarrow> (Inl e, calls)
          | Inr topicsObj \<Rightarrow>
          (case rawCall W (protocol this) ''searchlogs''
                  (Some [fromBlock, toBlock, addrObj, topicsObj]) calls of
             (Inl e, calls') \<Rightarrow> (Inl e, calls')
           | (Inr pr, calls') \<Rightarrow>
               (Inr (then_promise pr
                  (\<lambda>results. decodeSearchLog results contractMetadata removeHexPrefix)),
                calls')))))"

definition getpeerinfo :: "(fn \<Rightarrow> transport) \<Rightarrow> web3 \<Rightarrow> (error + jsval promise) call" where
  "getpeerinfo W this =
     rawCall W (protocol this) ''getpeerinfo'' None"

definition gethexaddress :: "(fn \<Rightarrow> transport) \<Rightarrow> web3 \<Rightarrow> jsval \<Rightarrow> (error + jsval promise) call" where
  "gethexaddress W this address =
     rawCall W (protocol this) ''gethexaddress'' (Some [address])"

definition fromhexaddress :: "(fn \<Rightarrow> transport) \<Rightarrow> web3 \<Rightarrow> jsval \<Rightarrow> (error + jsval promise) call" where
  "fromhexaddress W this hexAddress =
     rawCall W (protocol this) ''fromhexaddress'' (Some [hexAddress])"

definition validateaddress :: "(fn \<Rightarrow> transport) \<Rightarrow> web3 \<Rightarrow> jsval \<Rightarrow> (error + jsval promise) call" where
  "validateaddress W this address =
     rawCall W (protocol this) ''validateaddress'' (Some [address])"

definition backupwallet :: "(fn \<Rightarrow> transport) \<Rightarrow> web3 \<Rightarrow> jsval \<Rightarrow> (error + jsval promise) call" where
  "backupwallet W this destination =
     rawCall W (protocol this) ''backupwallet'' (Some [destination])"

definition dumpprivkey :: "(fn \<Rightarrow> transport) \<Rightarrow> web3 \<Rightarrow> jsval \<Rightarrow> (error + jsval promise) call" where
  "dumpprivkey W this address =
     rawCall W (protocol this) ''dumpprivkey'' (Some [address])"

definition encryptwallet :: "(fn \<Rightarrow> transport) \<Rightarrow> web3 \<Rightarrow> jsval \<Rightarrow> (error + jsval promise) call" where
  "encryptwallet W this passphrase =
     rawCall W (protocol this) ''encryptwallet'' (Some [passphrase])"

definition getaccount :: "(fn \<Rightarrow> transport) \<Rightarrow> web3 \<Rightarrow> jsval \<Rightarrow> (error + jsval promise) call" where
  "getaccount W this address =
     rawCall W (protocol this) ''getaccount'' (Some [address])"

definition getAccountAddress :: "(fn \<Rightarrow> transport) \<Rightarrow> web3 \<Rightarrow> jsval \<Rightarrow> (error + jsval promise) call" where
  "getAccountAddress W this acctName =
     rawCall W (protocol this) ''getaccountaddress'' (Some [orDefault acctName (JStr [])])"

definition getaddressesbyaccount :: "(fn \<Rightarrow> transport) \<Rightarrow> web3 \<Rightarrow> jsval \<Rightarrow> (error + jsval promise) call" where
  "getaddressesbyaccount W this acctName =
     rawCall W (protocol this) ''getaddressesbyaccount'' (Some [orDefault acctName (JStr [])])"

definition getnewaddress :: "(fn \<Rightarrow> transport) \<Rightarrow> web3 \<Rightarrow> jsval \<Rightarrow> (error + jsval promise) call" where
  "getnewaddress W this acctName =
     rawCall W (protocol this) ''getnewaddress'' (Some [orDefault acctName (JStr [])])"

definition gettransaction :: "(fn \<Rightarrow> transport) \<Rightarrow> web3 \<Rightarrow> jsval \<Rightarrow> (error + jsval promise) call" where
  "gettransaction W this txid =
     rawCall W (protocol this) ''gettransaction'' (Some [txid])"

definition getwalletinfo :: "(fn \<Rightarrow> transport) \<Rightarrow> web3 \<Rightarrow> (error + jsval promise) call" where
  "getwalletinfo W this =
     rawCall W (protocol this) ''getwalletinfo'' None"

definition getunconfirmedbalance :: "(fn \<Rightarrow> transport) \<Rightarrow> web3 \<Rightarrow> (error + jsval promise) call" where
  "getunconfirmedbalance W this =
     rawCall W (protocol this) ''getunconfirmedbalance'' None"

definition importaddress :: "(fn \<Rightarrow> transport) \<Rightarrow> web3 \<Rightarrow> jsval \<Rightarrow> jsval \<Rightarrow> jsval \<Rightarrow> (error + jsval promise) call" where
  "importaddress W this address label rescan =
     rawCall W (protocol this) ''importaddress'' (Some [address, orDefault label (JStr []), orDefault rescan (JBool True)])"

definition importprivkey :: "(fn \<Rightarrow> transport) \<Rightarrow> web3 \<Rightarrow> jsval \<Rightarrow> jsval \<Rightarrow> jsval \<Rightarrow> (error + jsval promise) call" where
  "importprivkey W this privateKey label rescan =
     rawCall W (protocol this) ''importprivkey'' (Some [privateKey, orDefault label (JStr []), orDefault rescan (JBool True)])"

definition importwallet :: "(fn \<Rightarrow> transport) \<Rightarrow> web3 \<Rightarrow> jsval \<Rightarrow> (error + jsval promise) call" where
  "importwallet W this filename =
     rawCall W (protocol this) ''importwallet'' (Some [filename])"

definition listaddressgroupings :: "(fn \<Rightarrow> transport) \<Rightarrow> web3 \<Rightarrow> (error + jsval promise) call" where
  "listaddressgroupings W this =
     rawCall W (protocol this) ''listaddressgroupings'' None"

definition listlockunspent :: "(fn \<Rightarrow> transport) \<Rightarrow> web3 \<Rightarrow> (error + jsval promise) call" where
  "listlockunspent W this =
     rawCall W (protocol this) ''listlockunspent'' None"

definition listunspent :: "(fn \<Rightarrow> transport) \<Rightarrow> web3 \<Rightarrow> (error + jsval promise) call" where
  "listunspent W this =
     rawCall W (protocol this) ''listunspent'' None"

definition sendtoaddress :: "(fn \<Rightarrow> transport) \<Rightarrow> web3 \<Rightarrow> jsval \<Rightarrow> jsval \<Rightarrow> jsval \<Rightarrow> jsval \<Rightarrow> (error + jsval promise) call" where
  "sendtoaddress W this luxaddress amount comment commentTo =
     rawCall W (protocol this) ''sendtoaddress'' (Some [luxaddress, amount, orDefault comment (JStr []), orDefault commentTo (JStr [])])"

definition settxfee :: "(fn \<Rightarrow> transport) \<Rightarrow> web3 \<Rightarrow> jsval \<Rightarrow> (error + jsval promise) call" where
  "settxfee W this amount =
     rawCall W (protocol this) ''settxfee'' (Some [amount])"

definition walletlock :: "(fn \<Rightarrow> transport) \<Rightarrow> web3 \<Rightarrow> (error + jsval promise) call" where
  "walletlock W this =
     rawCall W (protocol this) ''walletlock'' None"

definition walletpassphrase :: "(fn \<Rightarrow> transport) \<Rightarrow> web3 \<Rightarrow> jsval \<Rightarrow> jsval \<Rightarrow> jsval \<Rightarrow> (error + jsval promise) call" where
  "walletpassphrase W this passphrase timeout anonymizeonly =
     rawCall W (protocol this) ''walletpassphrase'' (Some [passphrase, timeout, orDefault anonymizeonly (JBool False)])"

definition walletpassphrasechange :: "(fn \<Rightarrow> transport) \<Rightarrow> web3 \<Rightarrow> jsval \<Rightarrow> jsval \<Rightarrow> (error + jsval promise) call" where
  "walletpassphrasechange W this oldPassphrase newPassphrase =
     rawCall W (protocol this) ''walletpassphrasechange'' (Some [oldPassphrase, newPassphrase])"

section \<open>Sample collaborators\<close>

text \<open>
  Concrete collaborators for the closed examples further down: a provider object whose
  \<^verbatim>\<open>rawCall\<close> is a closure, the instance built around it, a transport that answers every call with a promise
  fulfilled with the parameter array it was given, one that rejects every call, and a
  decoder that wraps the three arguments it receives.
\<close>

definition sampleProvider :: jsval where
  "sampleProvider = JObj [(''rawCall'', JFun (Closure 0))]"

definition sampleWeb3 :: web3 where
  "sampleWeb3 = \<lparr>protocol = sampleProvider\<rparr>"

definition echoTransport :: "fn \<Rightarrow> transport" where
  "echoTransport f calls method params =
     Inr (Fulfilled (JArr (case params of None \<Rightarrow> [] | Some ps \<Rightarrow> ps)))"

definition rejectingTransport :: "fn \<Rightarrow> transport" where
  "rejectingTransport f calls method params = Inr (Rejected (Error ''connection refused''))"

definition taggingDecoder :: decoder where
  "taggingDecoder results contractMetadata removeHexPrefix =
     Inr (JObj [(''decoded'', results), (''metadata'', contractMetadata),
                (''removeHexPrefix'', removeHexPrefix)])"

section \<open>The ABI codec, from the spec\<close>

text \<open>
  \<^verbatim>\<open>web3.js\<close> holds the modules \<^verbatim>\<open>Encoder\<close> and \<^verbatim>\<open>Decoder\<close> and calls
  \<^verbatim>\<open>Decoder.decodeSearchLog\<close>, but \<^verbatim>\<open>src/encoder.js\<close> and
  \<^verbatim>\<open>src/decoder.js\<close> are not among the sources. The definitions of this section
  follow the words of the spec (sections 3, 4 and 6) instead; each says which words.
\<close>

subsection \<open>Hex strings and words\<close>

text \<open>
  Modelled from the spec: the hex convention of section 6, ``all binary payloads are
  represented as lowercase hex strings''. The encoder and the decoder
  (\<^verbatim>\<open>src/encoder.js\<close>, \<^verbatim>\<open>src/decoder.js\<close>) are
  not among the sources; these are the sixteen digits.
\<close>

definition hexDigits :: string where
  "hexDigits = ''0123456789abcdef''"

text \<open>
  Modelled from the spec: the lowercase digit of a value below sixteen (hex convention,
  section 6).
\<close>

definition hexDigit :: "nat \<Rightarrow> char" where
  "hexDigit d = hexDigits ! (d mod 16)"

text \<open>
  Modelled from the spec: the value of a lowercase hex digit, \<open>None\<close> for every
  other character (hex convention, section 6).
\<close>

definition hexValue :: "char \<Rightarrow> nat option" where
  "hexValue c = map_of (map (\<lambda>(i, d). (d, i)) (enumerate 0 hexDigits)) c"

text \<open>
  Modelled from the spec: a string of lowercase hex digits only (hex convention, section 6).
\<close>

definition isHex :: "string \<Rightarrow> bool" where
  "isHex s = list_all (\<lambda>c. hexValue c \<noteq> None) s"

text \<open>
  Modelled from the spec: ``optionally prefixed with a fixed marker; encode/decode must be
  prefix-agnostic on input'' (section 6). The marker is \<^verbatim>\<open>0x\<close>.
\<close>

definition stripHexPrefix :: "string \<Rightarrow> string" where
  "stripHexPrefix s = (if take 2 s = ''0x'' then drop 2 s else s)"

text \<open>
  Modelled from the spec: a value as \<open>n\<close> big-endian hex digits,
  ``padded/truncated'' to that width (section 4.1).
\<close>

fun toHex :: "nat \<Rightarrow> nat \<Rightarrow> string" where
  "toHex 0 v = []"
| "toHex (Suc n) v = toHex n (v div 16) @ [hexDigit (v mod 16)]"

text \<open>
  Modelled from the spec: reading a big-endian hex number digit by digit;
  \<open>None\<close> at a character that is no hex digit (section 4.1).
\<close>

fun fromHexAcc :: "nat \<Rightarrow> string \<Rightarrow> nat option" where
  "fromHexAcc acc [] = Some acc"
| "fromHexAcc acc (c # cs) =
     (case hexValue c of None \<Rightarrow> None | Some d \<Rightarrow> fromHexAcc (16 * acc + d) cs)"

text \<open>
  Modelled from the spec: the value of a big-endian hex string (section 4.1).
\<close>

definition fromHex :: "string \<Rightarrow> nat option" where
  "fromHex s = fromHexAcc 0 s"

text \<open>
  Modelled from the spec: the Encoded Word is ``a fixed-width (32-byte-equivalent) hex
  unit'' (section 3); its values range below \<open>2 ^ 256\<close>.
\<close>

definition wordLimit :: nat where
  "wordLimit = 2 ^ 256"

text \<open>
  Modelled from the spec: ``decode respecting sign bit for \<^verbatim>\<open>intN\<close>''
  (section 4.1): the top bit of a word.
\<close>

definition signBit :: nat where
  "signBit = 2 ^ 255"

text \<open>
  Modelled from the spec: one Encoded Word, 32 bytes as 64 hex digits (section 3).
\<close>

definition hexWord :: "nat \<Rightarrow> string" where
  "hexWord v = toHex 64 v"

text \<open>
  Modelled from the spec: reading the first word of a hex slice; \<open>None\<close> when
  fewer than 64 digits are left (section 4.3, ``fails if the blob is shorter'').
\<close>

definition readWord :: "string \<Rightarrow> nat option" where
  "readWord s = (if length s < 64 then None else fromHex (take 64 s))"

text \<open>
  Modelled from the spec: ``left-padded to one word'' (section 4.1,
  \<^verbatim>\<open>address\<close>).
\<close>

definition padLeft :: "nat \<Rightarrow> string \<Rightarrow> string" where
  "padLeft n s = replicate (n - length s) CHR ''0'' @ s"

text \<open>
  Modelled from the spec: the length of a content after right-padding to whole words
  (section 4.1, ``right-padded content words'').
\<close>

definition paddedLength :: "nat \<Rightarrow> nat" where
  "paddedLength n = ((n + 63) div 64) * 64"

text \<open>
  Modelled from the spec: ``right-padded'' content (section 4.1,
  \<^verbatim>\<open>bytesN\<close>, \<^verbatim>\<open>bytes\<close>,
  \<^verbatim>\<open>string\<close>).
\<close>

definition padRight :: "string \<Rightarrow> string" where
  "padRight s = s @ replicate (paddedLength (length s) - length s) CHR ''0''"

text \<open>
  Modelled from the spec: ``for \<^verbatim>\<open>string\<close> interpreting bytes as
  UTF-8 text'' (section 4.1). A text is kept as the sequence of its UTF-8 bytes, each byte
  written as two hex digits.
\<close>

definition hexOfBytes :: "string \<Rightarrow> string" where
  "hexOfBytes s = concat (map (\<lambda>c. toHex 2 (of_char c)) s)"

text \<open>
  Modelled from the spec: the bytes that a hex string of even length denotes (section 4.1,
  \<^verbatim>\<open>string\<close>).
\<close>

fun bytesOfHex :: "string \<Rightarrow> string option" where
  "bytesOfHex [] = Some []"
| "bytesOfHex [a] = None"
| "bytesOfHex (a # b # rest) =
     (case fromHex [a, b] of
        None \<Rightarrow> None
      | Some v \<Rightarrow> map_option ((#) (char_of v)) (bytesOfHex rest))"

subsection \<open>Type descriptors\<close>

text \<open>
  Modelled from the spec: the elementary types of a Type Descriptor (section 3):
  \<^verbatim>\<open>bool\<close>, \<^verbatim>\<open>uintN\<close>,
  \<^verbatim>\<open>intN\<close>, \<^verbatim>\<open>address\<close>,
  \<^verbatim>\<open>bytesN\<close>, \<^verbatim>\<open>bytes\<close>,
  \<^verbatim>\<open>string\<close>.
\<close>

datatype elemType = TBool | TUint nat | TInt nat | TAddress | TBytesN nat | TBytes | TString

text \<open>
  Modelled from the spec: a Type Descriptor names ``an elementary type or a fixed/dynamic
  array of one (\<^verbatim>\<open>type[]\<close>, \<^verbatim>\<open>type[N]\<close>)''
  (section 3).
\<close>

datatype abiType = Elem elemType | FixedArray elemType nat | DynArray elemType

text \<open>
  Modelled from the spec: a decimal digit of a size in a type descriptor such as
  \<^verbatim>\<open>uint256\<close> or \<^verbatim>\<open>type[N]\<close> (section 3).
\<close>

definition digitValue :: "char \<Rightarrow> nat option" where
  "digitValue c = (case hexValue c of Some d \<Rightarrow> if d < 10 then Some d else None | None \<Rightarrow> None)"

text \<open>
  Modelled from the spec: reading the decimal size in a type descriptor (section 3).
\<close>

fun parseNatAcc :: "nat \<Rightarrow> string \<Rightarrow> nat option" where
  "parseNatAcc acc [] = Some acc"
| "parseNatAcc acc (c # cs) =
     (case digitValue c of None \<Rightarrow> None | Some d \<Rightarrow> parseNatAcc (10 * acc + d) cs)"

text \<open>
  Modelled from the spec: the decimal size in a type descriptor (section 3), written without
  a leading zero.
\<close>

definition parseNat :: "string \<Rightarrow> nat option" where
  "parseNat s = (if s = [] \<or> take 1 s = ''0'' then None else parseNatAcc 0 s)"

text \<open>
  Modelled from the spec: resolving the name of an elementary type (section 3, ``every
  descriptor must resolve to exactly one codec rule'').
\<close>

definition parseElem :: "string \<Rightarrow> elemType option" where
  "parseElem s =
     (if s = ''bool'' then Some TBool
      else if s = ''address'' then Some TAddress
      else if s = ''bytes'' then Some TBytes
      else if s = ''string'' then Some TString
      else if take 4 s = ''uint'' then map_option TUint (parseNat (drop 4 s))
      else if take 3 s = ''int'' then map_option TInt (parseNat (drop 3 s))
      else if take 5 s = ''bytes'' then map_option TBytesN (parseNat (drop 5 s))
      else None)"

text \<open>
  Modelled from the spec: resolving a descriptor with or without an array suffix
  \<^verbatim>\<open>[]\<close> or \<^verbatim>\<open>[N]\<close> (section 3).
\<close>

definition parseArray :: "string \<Rightarrow> abiType option" where
  "parseArray s =
     (if s \<noteq> [] \<and> last s = CHR '']'' then
        (let body = butlast s;
             elem = takeWhile (\<lambda>c. c \<noteq> CHR ''['') body;
             len = drop (length elem + 1) body
         in if length elem = length body then None
            else case parseElem elem of
                   None \<Rightarrow> None
                 | Some e \<Rightarrow>
                     if len = [] then Some (DynArray e)
                     else map_option (FixedArray e) (parseNat len))
      else map_option Elem (parseElem s))"

text \<open>
  Modelled from the spec: \<^verbatim>\<open>uintN\<close> and
  \<^verbatim>\<open>intN\<close> are ``padded/truncated to one word'' (section 4.1), so
  their width is at most 256 bits.
\<close>

fun supportedElem :: "elemType \<Rightarrow> bool" where
  "supportedElem (TUint n) = (n \<le> 256)"
| "supportedElem (TInt n) = (n \<le> 256)"
| "supportedElem e = True"

text \<open>
  Modelled from the spec: the elementary type that a descriptor names or is an array of
  (section 3).
\<close>

fun elemOf :: "abiType \<Rightarrow> elemType" where
  "elemOf (Elem e) = e"
| "elemOf (FixedArray e n) = e"
| "elemOf (DynArray e) = e"

text \<open>
  Modelled from the spec: the codec rule of a type descriptor; \<open>None\<close> for an
  ``unresolvable descriptor'' (section 3).
\<close>

definition parseType :: "string \<Rightarrow> abiType option" where
  "parseType s =
     (case parseArray s of
        None \<Rightarrow> None
      | Some ty \<Rightarrow> if supportedElem (elemOf ty) then Some ty else None)"

text \<open>
  Modelled from the spec: ``dynamic types (\<^verbatim>\<open>bytes\<close>,
  \<^verbatim>\<open>string\<close>, dynamic arrays)'' (section 3).
\<close>

fun isDynamicElem :: "elemType \<Rightarrow> bool" where
  "isDynamicElem TBytes = True"
| "isDynamicElem TString = True"
| "isDynamicElem e = False"

text \<open>
  Modelled from the spec: dynamic types (section 3). A fixed array of a dynamic element type
  has no fixed size and counts as dynamic.
\<close>

fun isDynamic :: "abiType \<Rightarrow> bool" where
  "isDynamic (Elem e) = isDynamicElem e"
| "isDynamic (FixedArray e n) = isDynamicElem e"
| "isDynamic (DynArray e) = True"

text \<open>
  Modelled from the spec: ``static types occupy exactly one word each'' (section 3);
  \<^verbatim>\<open>bytesN\<close> occupies ``one word (or ceil(N/32) words)'' (section
  4.1).
\<close>

fun elemWords :: "elemType \<Rightarrow> nat" where
  "elemWords (TBytesN n) = (n + 31) div 32"
| "elemWords e = 1"

text \<open>
  Modelled from the spec: the words a static type occupies in the head region, ``N words for
  fixed arrays'' (section 3).
\<close>

fun staticWords :: "abiType \<Rightarrow> nat" where
  "staticWords (Elem e) = elemWords e"
| "staticWords (FixedArray e n) = n * elemWords e"
| "staticWords (DynArray e) = 1"

subsection \<open>Native values and errors\<close>

text \<open>
  Modelled from the spec: a native value is a ``number, string, boolean, address string, or
  nested array/structure'' (section 3). Addresses and byte strings are hex strings.
\<close>

datatype native = VBool bool | VNum int | VStr string | VArr "native list"

text \<open>
  Modelled from the spec: the error conditions of sections 4.1, 4.2 and 4.3, each carrying
  the offending descriptor, method name or blob (section 7).
\<close>

datatype codecError =
    UnknownType string
  | TypeMismatch string
  | Malformed string
  | SignatureResolution string
  | ArgumentCount string

subsection \<open>Encoding\<close>

text \<open>
  Modelled from the spec: the encoding rules of section 4.1 for the elementary types,
  \<open>None\<close> on a value of the wrong shape.
\<close>

fun encodeElem :: "elemType \<Rightarrow> native \<Rightarrow> string option" where
  "encodeElem TBool (VBool b) = Some (hexWord (if b then 1 else 0))"
| "encodeElem (TUint n) (VNum v) = Some (hexWord (nat (v mod int wordLimit)))"
| "encodeElem (TInt n) (VNum v) = Some (hexWord (nat (v mod int wordLimit)))"
| "encodeElem TAddress (VStr s) =
     (let h = stripHexPrefix s
      in if isHex h \<and> length h = 40 then Some (padLeft 64 h) else None)"
| "encodeElem (TBytesN n) (VStr s) =
     (let h = stripHexPrefix s
      in if isHex h \<and> length h = 2 * n \<and> 0 < n then Some (padRight h) else None)"
| "encodeElem TBytes (VStr s) =
     (let h = stripHexPrefix s
      in if isHex h \<and> even (length h)
         then Some (hexWord (length h div 2) @ padRight h) else None)"
| "encodeElem TString (VStr s) = Some (hexWord (length s) @ padRight (hexOfBytes s))"
| "encodeElem e v = None"

text \<open>
  Modelled from the spec: step 3 of section 4.2: ``static types emit directly into the head
  region in sequence; dynamic types emit a placeholder offset word into the head and append
  their actual encoding to a growing tail region''. \<open>off\<close> is the byte offset
  where the next tail starts.
\<close>

fun layout :: "nat \<Rightarrow> (bool \<times> string) list \<Rightarrow> string \<times> string" where
  "layout off [] = ([], [])"
| "layout off ((dyn, enc) # parts) =
     (if dyn then
        (let (head, tail) = layout (off + length enc div 2) parts
         in (hexWord off @ head, enc @ tail))
      else
        (let (head, tail) = layout off parts
         in (enc @ head, tail)))"

text \<open>
  Modelled from the spec: the length of the head region in bytes (section 4.2, step 3): 32
  for every dynamic part.
\<close>

definition headLength :: "(bool \<times> string) list \<Rightarrow> nat" where
  "headLength parts = sum_list (map (\<lambda>(dyn, enc). if dyn then 32 else length enc div 2) parts)"

text \<open>
  Modelled from the spec: head followed by tail, where each offset is ``head length +
  cumulative prior tail length'' (section 4.2, step 3).
\<close>

definition headTail :: "(bool \<times> string) list \<Rightarrow> string" where
  "headTail parts = (let (head, tail) = layout (headLength parts) parts in head @ tail)"

text \<open>
  Modelled from the spec: the encoding rules of section 4.1 for arrays. A fixed array is the
  ``inline sequence of N encoded elements''; a dynamic array is a ``length word followed by
  sequence of encoded elements; if element type is dynamic, elements are
  head/tail-encoded''.
\<close>

fun encodeTyped :: "abiType \<Rightarrow> native \<Rightarrow> string option" where
  "encodeTyped (Elem e) v = encodeElem e v"
| "encodeTyped (FixedArray e n) (VArr vs) =
     (if length vs \<noteq> n then None
      else map_option concat (those (map (encodeElem e) vs)))"
| "encodeTyped (DynArray e) (VArr vs) =
     map_option
       (\<lambda>encs. hexWord (length vs) @
          (if isDynamicElem e then headTail (map (Pair True) encs) else concat encs))
       (those (map (encodeElem e) vs))"
| "encodeTyped ty v = None"

text \<open>
  Modelled from the spec: the contract \<^verbatim>\<open>encodeValue(type, value) ->
  hexWord(s)\<close> of section 4.1, with its two fatal errors.
\<close>

definition encodeValue :: "string \<Rightarrow> native \<Rightarrow> codecError + string" where
  "encodeValue T v =
     (case parseType T of
        None \<Rightarrow> Inl (UnknownType T)
      | Some ty \<Rightarrow>
          (case encodeTyped ty v of
             None \<Rightarrow> Inl (TypeMismatch T)
           | Some h \<Rightarrow> Inr h))"

subsection \<open>Decoding\<close>

text \<open>
  Modelled from the spec: the decoding rules of section 4.1 for the elementary types. The
  slice starts at the value (at its length word for \<^verbatim>\<open>bytes\<close> and
  \<^verbatim>\<open>string\<close>); decoded addresses and byte strings carry the
  \<^verbatim>\<open>0x\<close> marker.
\<close>

fun decodeElem :: "elemType \<Rightarrow> string \<Rightarrow> native option" where
  "decodeElem TBool s = map_option (\<lambda>v. VBool (v \<noteq> 0)) (readWord s)"
| "decodeElem (TUint n) s = map_option (\<lambda>v. VNum (int v)) (readWord s)"
| "decodeElem (TInt n) s =
     map_option (\<lambda>v. VNum (if signBit \<le> v then int v - int wordLimit else int v))
       (readWord s)"
| "decodeElem TAddress s =
     (if length s < 64 \<or> \<not> isHex (take 64 s) then None
      else Some (VStr (''0x'' @ drop 24 (take 64 s))))"
| "decodeElem (TBytesN n) s =
     (if length s < 64 * elemWords (TBytesN n) \<or> \<not> isHex (take (2 * n) s) then None
      else Some (VStr (''0x'' @ take (2 * n) s)))"
| "decodeElem TBytes s =
     (case readWord s of
        None \<Rightarrow> None
      | Some len \<Rightarrow>
          if length s < 64 + 2 * len \<or> \<not> isHex (take (2 * len) (drop 64 s)) then None
          else Some (VStr (''0x'' @ take (2 * len) (drop 64 s))))"
| "decodeElem TString s =
     (case readWord s of
        None \<Rightarrow> None
      | Some len \<Rightarrow>
          if length s < 64 + 2 * len then None
          else map_option VStr (bytesOfHex (take (2 * len) (drop 64 s))))"

text \<open>
  Modelled from the spec: decoding a sequence of static elements laid out one after the
  other (section 4.1, arrays).
\<close>

fun decodeStatic :: "elemType \<Rightarrow> nat \<Rightarrow> string \<Rightarrow> native list option" where
  "decodeStatic e 0 s = Some []"
| "decodeStatic e (Suc k) s =
     (case decodeElem e s of
        None \<Rightarrow> None
      | Some v \<Rightarrow> map_option ((#) v) (decodeStatic e k (drop (64 * elemWords e) s)))"

text \<open>
  Modelled from the spec: the number of hex digits that the encoding of a
  \<^verbatim>\<open>bytes\<close> or \<^verbatim>\<open>string\<close> value occupies: its
  length word and its padded content (section 4.1).
\<close>

definition blockLength :: "string \<Rightarrow> nat option" where
  "blockLength s = map_option (\<lambda>len. 64 + paddedLength (2 * len)) (readWord s)"

text \<open>
  Modelled from the spec: decoding the ``nested blocks'' of a fixed array whose element type
  is dynamic (section 4.1).
\<close>

fun decodeInline :: "elemType \<Rightarrow> nat \<Rightarrow> string \<Rightarrow> native list option" where
  "decodeInline e 0 s = Some []"
| "decodeInline e (Suc k) s =
     (case (decodeElem e s, blockLength s) of
        (Some v, Some used) \<Rightarrow> map_option ((#) v) (decodeInline e k (drop used s))
      | _ \<Rightarrow> None)"

text \<open>
  Modelled from the spec: decoding head/tail-encoded elements: the offset word of each
  element is followed into the tail (sections 4.1 and 4.3).
\<close>

fun decodeOffsets :: "elemType \<Rightarrow> string \<Rightarrow> nat \<Rightarrow> nat \<Rightarrow> native list option" where
  "decodeOffsets e region pos 0 = Some []"
| "decodeOffsets e region pos (Suc k) =
     (case readWord (drop pos region) of
        None \<Rightarrow> None
      | Some off \<Rightarrow>
          (case decodeElem e (drop (2 * off) region) of
             None \<Rightarrow> None
           | Some v \<Rightarrow> map_option ((#) v) (decodeOffsets e region (pos + 64) k)))"

text \<open>
  Modelled from the spec: the decoding rules of section 4.1 for arrays.
\<close>

fun decodeTyped :: "abiType \<Rightarrow> string \<Rightarrow> native option" where
  "decodeTyped (Elem e) s = decodeElem e s"
| "decodeTyped (FixedArray e n) s =
     map_option VArr (if isDynamicElem e then decodeInline e n s else decodeStatic e n s)"
| "decodeTyped (DynArray e) s =
     (case readWord s of
        None \<Rightarrow> None
      | Some n \<Rightarrow>
          if length s < 64 + 64 * n then None
          else map_option VArr
                 (if isDynamicElem e then decodeOffsets e (drop 64 s) 0 n
                  else decodeStatic e n (drop 64 s)))"

text \<open>
  Modelled from the spec: the contract \<^verbatim>\<open>decodeValue(type, hexSlice) ->
  nativeValue\<close> of section 4.1, prefix-agnostic on its input.
\<close>

definition decodeValue :: "string \<Rightarrow> string \<Rightarrow> codecError + native" where
  "decodeValue T hexSlice =
     (case parseType T of
        None \<Rightarrow> Inl (UnknownType T)
      | Some ty \<Rightarrow>
          (case decodeTyped ty (stripHexPrefix hexSlice) of
             None \<Rightarrow> Inl (Malformed T)
           | Some v \<Rightarrow> Inr v))"

subsection \<open>Valid native values\<close>

text \<open>
  Modelled from the spec: a ``valid native value'' of an elementary type (section 8): a
  boolean; a number in the range of \<^verbatim>\<open>uintN\<close> or
  \<^verbatim>\<open>intN\<close>; an address of 20 bytes and a
  \<^verbatim>\<open>bytesN\<close> value of N bytes, written in lowercase hex with the
  \<^verbatim>\<open>0x\<close> marker; a byte string likewise; any text.
\<close>

fun validElem :: "elemType \<Rightarrow> native \<Rightarrow> bool" where
  "validElem TBool (VBool b) = True"
| "validElem (TUint n) (VNum v) = (0 \<le> v \<and> v < 2 ^ n)"
| "validElem (TInt n) (VNum v) = (0 < n \<and> - (2 ^ (n - 1)) \<le> v \<and> v < 2 ^ (n - 1))"
| "validElem TAddress (VStr s) = (take 2 s = ''0x'' \<and> length s = 42 \<and> isHex (drop 2 s))"
| "validElem (TBytesN n) (VStr s) =
     (0 < n \<and> take 2 s = ''0x'' \<and> length s = 2 + 2 * n \<and> isHex (drop 2 s))"
| "validElem TBytes (VStr s) = (take 2 s = ''0x'' \<and> even (length s) \<and> isHex (drop 2 s))"
| "validElem TString (VStr s) = True"
| "validElem e v = False"

text \<open>
  Modelled from the spec: a ``valid native value'' of a type (section 8): for an array type,
  an array of valid elements, of length N for \<^verbatim>\<open>type[N]\<close>.
\<close>

fun validValue :: "abiType \<Rightarrow> native \<Rightarrow> bool" where
  "validValue (Elem e) v = validElem e v"
| "validValue (FixedArray e n) (VArr vs) = (length vs = n \<and> list_all (validElem e) vs)"
| "validValue (DynArray e) (VArr vs) = list_all (validElem e) vs"
| "validValue ty v = False"

subsection \<open>ABI definitions and the call encoder\<close>

text \<open>
  Modelled from the spec: an ABI entry is ``either a \<^verbatim>\<open>function\<close> or
  \<^verbatim>\<open>event\<close> descriptor'' (section 3).
\<close>

datatype entryKind = Function | Event

text \<open>
  Modelled from the spec: an input or output \<^verbatim>\<open>{name, type,
  indexed?}\<close> of an ABI entry (sections 3 and 6).
\<close>

record abiParam =
  paramName :: string
  paramType :: string
  indexed :: bool

text \<open>
  Modelled from the spec: an ABI entry with its kind tag, \<^verbatim>\<open>name\<close>,
  \<^verbatim>\<open>inputs\<close> and \<^verbatim>\<open>outputs\<close> (sections 3 and
  6).
\<close>

record abiEntry =
  kind :: entryKind
  entryName :: string
  inputs :: "abiParam list"
  outputs :: "abiParam list"

text \<open>
  Modelled from the spec: the comma-separated type list of
  \<^verbatim>\<open>name(type1,type2,...)\<close> (section 3).
\<close>

fun joinTypes :: "string list \<Rightarrow> string" where
  "joinTypes [] = []"
| "joinTypes [t] = t"
| "joinTypes (t # ts) = t @ '','' @ joinTypes ts"

text \<open>
  Modelled from the spec: the text \<^verbatim>\<open>name(type1,type2,...)\<close> that a
  selector is derived from (section 3).
\<close>

definition signatureText :: "string \<Rightarrow> string list \<Rightarrow> string" where
  "signatureText name types = name @ ''('' @ joinTypes types @ '')''"

text \<open>
  Modelled from the spec: the Signature Hash ``derived deterministically from
  \<^verbatim>\<open>name(type1,type2,...)\<close> via a one-way hash, truncated to a fixed
  prefix length'' (section 3), here 4 bytes (section 4.2). The hash is not specified: it is
  the parameter \<open>H\<close>, which gives the digest of a text in lowercase hex.
\<close>

definition selector :: "(string \<Rightarrow> string) \<Rightarrow> string \<Rightarrow> string list \<Rightarrow> string" where
  "selector H name types = take 8 (H (signatureText name types))"

text \<open>
  Modelled from the spec: whether a type descriptor names a dynamic type (section 3).
\<close>

definition isDynamicType :: "string \<Rightarrow> bool" where
  "isDynamicType T = (case parseType T of None \<Rightarrow> False | Some ty \<Rightarrow> isDynamic ty)"

text \<open>
  Modelled from the spec: step 3 of section 4.2: the arguments are encoded in declared
  order; any error is fatal ``before any partial output is emitted''.
\<close>

fun encodeArgs :: "string list \<Rightarrow> native list \<Rightarrow> codecError + (bool \<times> string) list" where
  "encodeArgs [] [] = Inr []"
| "encodeArgs (T # Ts) (v # vs) =
     (case encodeValue T v of
        Inl e \<Rightarrow> Inl e
      | Inr enc \<Rightarrow>
          (case encodeArgs Ts vs of
             Inl e \<Rightarrow> Inl e
           | Inr parts \<Rightarrow> Inr ((isDynamicType T, enc) # parts)))"
| "encodeArgs Ts vs = Inl (ArgumentCount [])"

text \<open>
  Modelled from the spec: the ``type-compatible match'' of section 4.2, step 1: every
  argument can be encoded at the type of its parameter.
\<close>

definition typeCompatible :: "abiEntry \<Rightarrow> native list \<Rightarrow> bool" where
  "typeCompatible f args =
     (case encodeArgs (map paramType (inputs f)) args of Inl e \<Rightarrow> False | Inr parts \<Rightarrow> True)"

text \<open>
  Modelled from the spec: step 1 of section 4.2: ``filter ABI entries to
  \<^verbatim>\<open>function\<close> kind with matching \<^verbatim>\<open>name\<close>; if
  multiple overloads match, select by argument count first then attempt type-compatible
  match; if none resolves unambiguously, fail''.
\<close>

definition resolveMethod :: "abiEntry list \<Rightarrow> string \<Rightarrow> native list \<Rightarrow> codecError + abiEntry" where
  "resolveMethod abi methodName args =
     (case filter (\<lambda>e. kind e = Function \<and> entryName e = methodName) abi of
        [] \<Rightarrow> Inl (SignatureResolution methodName)
      | [f] \<Rightarrow> Inr f
      | overloads \<Rightarrow>
          (case filter (\<lambda>f. length (inputs f) = length args) overloads of
             [f] \<Rightarrow> Inr f
           | byCount \<Rightarrow>
               (case filter (\<lambda>f. typeCompatible f args) byCount of
                  [f] \<Rightarrow> Inr f
                | _ \<Rightarrow> Inl (SignatureResolution methodName))))"

text \<open>
  Modelled from the spec: the contract \<^verbatim>\<open>encodeCall(abi, methodName, args)
  -> hexPayload\<close> of section 4.2: selector, head and tail concatenated. The payload is
  returned without the \<^verbatim>\<open>0x\<close> marker, which is ``stripped/added as
  the transport requires''.
\<close>

definition encodeCall ::
  "(string \<Rightarrow> string) \<Rightarrow> abiEntry list \<Rightarrow> string \<Rightarrow> native list \<Rightarrow> codecError + string" where
  "encodeCall H abi methodName args =
     (case resolveMethod abi methodName args of
        Inl e \<Rightarrow> Inl e
      | Inr f \<Rightarrow>
          if length args \<noteq> length (inputs f) then Inl (ArgumentCount methodName)
          else
            (case encodeArgs (map paramType (inputs f)) args of
               Inl e \<Rightarrow> Inl e
             | Inr parts \<Rightarrow>
                 Inr (selector H methodName (map paramType (inputs f)) @ headTail parts)))"

subsection \<open>The result decoder\<close>

text \<open>
  Modelled from the spec: ``one head word per static/dynamic-pointer slot'' (section 4.3); a
  static type of several words takes that many.
\<close>

definition headWords :: "abiType \<Rightarrow> nat" where
  "headWords ty = (if isDynamic ty then 1 else staticWords ty)"

text \<open>
  Modelled from the spec: section 4.3: the decoder ``walks output type descriptors in
  order''; ``for dynamic types follows the offset into the tail region to decode actual
  content''.
\<close>

fun decodeSlots :: "string \<Rightarrow> nat \<Rightarrow> abiType list \<Rightarrow> native list option" where
  "decodeSlots blob pos [] = Some []"
| "decodeSlots blob pos (ty # tys) =
     (case (if isDynamic ty
            then (case readWord (drop pos blob) of
                    None \<Rightarrow> None
                  | Some off \<Rightarrow> decodeTyped ty (drop (2 * off) blob))
            else decodeTyped ty (drop pos blob)) of
        None \<Rightarrow> None
      | Some v \<Rightarrow> map_option ((#) v) (decodeSlots blob (pos + 64 * headWords ty) tys))"

text \<open>
  Modelled from the spec: resolving a list of type descriptors; the first unresolvable one
  is the error (section 4.1).
\<close>

fun parseTypes :: "string list \<Rightarrow> codecError + abiType list" where
  "parseTypes [] = Inr []"
| "parseTypes (T # Ts) =
     (case parseType T of
        None \<Rightarrow> Inl (UnknownType T)
      | Some ty \<Rightarrow> (case parseTypes Ts of Inl e \<Rightarrow> Inl e | Inr tys \<Rightarrow> Inr (ty # tys)))"

text \<open>
  Modelled from the spec: the contract \<^verbatim>\<open>decodeResult(outputTypes, hexBlob)
  -> orderedValues\<close> of section 4.3; it ``fails if the blob is shorter than the
  minimum expected head length''.
\<close>

definition decodeResult :: "string list \<Rightarrow> string \<Rightarrow> codecError + native list" where
  "decodeResult outputTypes hexBlob =
     (case parseTypes outputTypes of
        Inl e \<Rightarrow> Inl e
      | Inr tys \<Rightarrow>
          (let blob = stripHexPrefix hexBlob
           in if length blob < 64 * sum_list (map headWords tys) then Inl (Malformed hexBlob)
              else case decodeSlots blob 0 tys of
                     None \<Rightarrow> Inl (Malformed hexBlob)
                   | Some vs \<Rightarrow> Inr vs))"

subsection \<open>The event log decoder\<close>

text \<open>
  Modelled from the spec: a Log Entry: \<^verbatim>\<open>address\<close>, ``ordered
  sequence of \<^verbatim>\<open>topics\<close>'' and \<^verbatim>\<open>data\<close>
  (section 3).
\<close>

record logEntry =
  logAddress :: string
  logTopics :: "string list"
  logData :: string

text \<open>
  Modelled from the spec: the outcome for one log entry (section 4.4): the decoded event
  with its fields in declared order, or the entry ``left raw''.
\<close>

datatype decodedLog = Decoded string "(string \<times> native) list" | Unresolved logEntry

text \<open>
  Modelled from the spec: ``each candidate event's computed selector hash
  (\<^verbatim>\<open>name(type1,...)\<close> over ALL inputs, indexed or not)'' (section
  4.4, step 2).
\<close>

definition eventTopic :: "(string \<Rightarrow> string) \<Rightarrow> abiEntry \<Rightarrow> string" where
  "eventTopic H ev = H (signatureText (entryName ev) (map paramType (inputs ev)))"

text \<open>
  Modelled from the spec: steps 1 and 2 of section 4.4: the ABI of the entry's address is
  looked up, and ``the first exact match'' of the first topic ``determines the event''.
\<close>

definition eventOf ::
  "(string \<Rightarrow> string) \<Rightarrow> (string \<times> abiEntry list) list \<Rightarrow> logEntry \<Rightarrow> abiEntry option" where
  "eventOf H contractMetadataMap entry =
     (case map_of (map (\<lambda>(a, abi). (stripHexPrefix a, abi)) contractMetadataMap)
             (stripHexPrefix (logAddress entry)) of
        None \<Rightarrow> None
      | Some abi \<Rightarrow>
          (case logTopics entry of
             [] \<Rightarrow> None
           | topic0 # indexedTopics \<Rightarrow>
               find (\<lambda>ev. kind ev = Event \<and> eventTopic H ev = stripHexPrefix topic0) abi))"

text \<open>
  Modelled from the spec: step 4 of section 4.4: an indexed input is decoded from its topic;
  ``indexed dynamic types are represented by their hash in the topic'' and are returned as
  that hash.
\<close>

definition decodeIndexed :: "string \<Rightarrow> string \<Rightarrow> native option" where
  "decodeIndexed T topic =
     (case parseType T of
        None \<Rightarrow> None
      | Some ty \<Rightarrow>
          if isDynamic ty then Some (VStr (''0x'' @ stripHexPrefix topic))
          else decodeTyped ty (stripHexPrefix topic))"

text \<open>
  Modelled from the spec: step 4 of section 4.4: the indexed inputs are decoded from
  \<^verbatim>\<open>topics[1..]\<close> ``in input-declaration order''.
\<close>

fun decodeTopics :: "string list \<Rightarrow> string list \<Rightarrow> native list option" where
  "decodeTopics [] ts = Some []"
| "decodeTopics (T # Ts) [] = None"
| "decodeTopics (T # Ts) (t # ts) =
     (case decodeIndexed T t of
        None \<Rightarrow> None
      | Some v \<Rightarrow> map_option ((#) v) (decodeTopics Ts ts))"

text \<open>
  Modelled from the spec: step 6 of section 4.4: ``merge indexed + non-indexed decoded
  values back into one ordered-by-declaration field mapping''.
\<close>

fun mergeFields :: "abiParam list \<Rightarrow> native list \<Rightarrow> native list \<Rightarrow> (abiParam \<times> native) list option" where
  "mergeFields [] ivs nvs = Some []"
| "mergeFields (p # ps) ivs nvs =
     (if indexed p then
        (case ivs of
           [] \<Rightarrow> None
         | v # ivs' \<Rightarrow> map_option ((#) (p, v)) (mergeFields ps ivs' nvs))
      else
        (case nvs of
           [] \<Rightarrow> None
         | v # nvs' \<Rightarrow> map_option ((#) (p, v)) (mergeFields ps ivs nvs')))"

text \<open>
  Modelled from the spec: the ``hex-valued'' fields of step 6 of section 4.4: addresses and
  byte strings, and arrays of them.
\<close>

definition isHexValued :: "string \<Rightarrow> bool" where
  "isHexValued T =
     (case parseType T of
        None \<Rightarrow> False
      | Some ty \<Rightarrow> (case elemOf ty of TAddress \<Rightarrow> True | TBytesN n \<Rightarrow> True | TBytes \<Rightarrow> True
                                    | _ \<Rightarrow> False))"

text \<open>
  Modelled from the spec: stripping the hex prefix from a value (section 4.4, step 6).
\<close>

fun stripNative :: "native \<Rightarrow> native" where
  "stripNative (VStr s) = VStr (stripHexPrefix s)"
| "stripNative (VArr vs) = VArr (map stripNative vs)"
| "stripNative v = v"

text \<open>
  Modelled from the spec: a decoded field under its parameter name; ``optionally strip a
  fixed hex prefix from every hex-valued field'' (section 4.4, step 6).
\<close>

definition namedField :: "bool \<Rightarrow> abiParam \<times> native \<Rightarrow> string \<times> native" where
  "namedField stripPrefix pv =
     (case pv of (p, v) \<Rightarrow>
        (paramName p,
         if stripPrefix \<and> (isHexValued (paramType p) \<or> (indexed p \<and> isDynamicType (paramType p)))
         then stripNative v else v))"

text \<open>
  Modelled from the spec: steps 1 to 6 of section 4.4 for one entry. By the failure policy
  an entry that cannot be decoded is ``left raw''.
\<close>

definition decodeLogEntry ::
  "(string \<Rightarrow> string) \<Rightarrow> (string \<times> abiEntry list) list \<Rightarrow> bool \<Rightarrow> logEntry \<Rightarrow> decodedLog" where
  "decodeLogEntry H contractMetadataMap stripPrefix entry =
     (case eventOf H contractMetadataMap entry of
        None \<Rightarrow> Unresolved entry
      | Some ev \<Rightarrow>
          (case decodeTopics (map paramType (filter indexed (inputs ev))) (tl (logTopics entry)) of
             None \<Rightarrow> Unresolved entry
           | Some ivs \<Rightarrow>
               (case decodeResult (map paramType (filter (\<lambda>p. \<not> indexed p) (inputs ev)))
                       (logData entry) of
                  Inl e \<Rightarrow> Unresolved entry
                | Inr nvs \<Rightarrow>
                    (case mergeFields (inputs ev) ivs nvs of
                       None \<Rightarrow> Unresolved entry
                     | Some merged \<Rightarrow> Decoded (entryName ev) (map (namedField stripPrefix) merged)))))"

text \<open>
  Modelled from the spec: the contract \<^verbatim>\<open>decodeSearchLog(rawResults,
  contractMetadataMap, stripHexPrefix) -> decodedLogs\<close> of section 4.4: every entry is
  decoded on its own.
\<close>

definition decodeSearchLog ::
  "(string \<Rightarrow> string) \<Rightarrow> logEntry list \<Rightarrow> (string \<times> abiEntry list) list \<Rightarrow> bool
     \<Rightarrow> decodedLog list" where
  "decodeSearchLog H rawResults contractMetadataMap stripPrefix =
     map (decodeLogEntry H contractMetadataMap stripPrefix) rawResults"

text \<open>
  Modelled from the spec: the entries named by the failure policy of section 4.4: ``a log
  entry whose event cannot be matched, or whose data blob fails decode''.
\<close>

definition unresolvable ::
  "(string \<Rightarrow> string) \<Rightarrow> (string \<times> abiEntry list) list \<Rightarrow> logEntry \<Rightarrow> bool" where
  "unresolvable H contractMetadataMap entry =
     (case eventOf H contractMetadataMap entry of
        None \<Rightarrow> True
      | Some ev \<Rightarrow>
          (case decodeResult (map paramType (filter (\<lambda>p. \<not> indexed p) (inputs ev)))
                  (logData entry) of
             Inl e \<Rightarrow> True
           | Inr nvs \<Rightarrow> False))"

subsection \<open>Samples\<close>

text \<open>
  A stand-in digest for the closed examples: the hex of the text, cut or zero-padded to 32
  bytes.
\<close>

definition sampleHash :: "string \<Rightarrow> string" where
  "sampleHash s = take 64 (hexOfBytes s @ replicate 64 CHR ''0'')"

text \<open>
  A token ABI for the closed examples: the function
  \<^verbatim>\<open>transfer(address,uint256)\<close> and the event
  \<^verbatim>\<open>Transfer(address,address,uint256)\<close> with
  \<^verbatim>\<open>from\<close> and \<^verbatim>\<open>to\<close> indexed.
\<close>

definition tokenAbi :: "abiEntry list" where
  "tokenAbi =
     [\<lparr>kind = Function, entryName = ''transfer'',
       inputs = [\<lparr>paramName = ''to'', paramType = ''address'', indexed = False\<rparr>,
                 \<lparr>paramName = ''value'', paramType = ''uint256'', indexed = False\<rparr>],
       outputs = [\<lparr>paramName = [], paramType = ''bool'', indexed = False\<rparr>]\<rparr>,
      \<lparr>kind = Event, entryName = ''Transfer'',
       inputs = [\<lparr>paramName = ''from'', paramType = ''address'', indexed = True\<rparr>,
                 \<lparr>paramName = ''to'', paramType = ''address'', indexed = True\<rparr>,
                 \<lparr>paramName = ''value'', paramType = ''uint256'', indexed = False\<rparr>],
       outputs = []\<rparr>]"

text \<open>
  The address of the sample token contract.
\<close>

definition tokenAddress :: string where
  "tokenAddress = ''0x1111111111111111111111111111111111111111''"

text \<open>
  A log entry of the event \<^verbatim>\<open>Transfer\<close> emitted by the contract at
  the given address: 100 units from \<^verbatim>\<open>0xaa...aa\<close> to
  \<^verbatim>\<open>0xbb...bb\<close>.
\<close>

definition transferLog :: "string \<Rightarrow> logEntry" where
  "transferLog contract =
     \<lparr>logAddress = contract,
      logTopics = [sampleHash ''Transfer(address,address,uint256)'',
                ''000000000000000000000000aaaaaaaaaaaaaaaaaaaaaaaaaaaaaaaaaaaaaaaa'',
                ''000000000000000000000000bbbbbbbbbbbbbbbbbbbbbbbbbbbbbbbbbbbbbbbb''],
      logData = ''0000000000000000000000000000000000000000000000000000000000000064''\<rparr>"

section \<open>Basic facts\<close>

lemma typeof_string: "typeof p = ''string'' \<longleftrightarrow> (\<exists>url. p = JStr url)"
  by (cases p) simp_all

lemma typeof_function: "typeof v = ''function'' \<longleftrightarrow> (\<exists>f. v = JFun f)"
  by (cases v) simp_all

lemma rawCall_function:
  "member p ''rawCall'' = Inr (JFun f) \<Longrightarrow>
   rawCall W p method params calls = (W f calls method params, calls @ [(method, params)])"
  by (simp add: rawCall_def)

lemma sampleProvider_rawCall: "member (protocol sampleWeb3) ''rawCall'' = Inr (JFun (Closure 0))"
  by (simp add: sampleWeb3_def sampleProvider_def)

section \<open>Argument validation of \<^verbatim>\<open>searchlogs\<close>\<close>

text \<open>
  Claim C5. \<^verbatim>\<open>searchlogs\<close> fails fast on bad arguments: when \<^verbatim>\<open>fromBlock\<close> is not a
  finite number, or \<^verbatim>\<open>toBlock\<close> is not one, or \<^verbatim>\<open>addresses\<close> is neither a string
  nor an array, or \<^verbatim>\<open>topics\<close> is neither, the call throws an \<^verbatim>\<open>Error\<close> whose
  message begins with the name of an offending parameter (the first one in the order
  \<^verbatim>\<open>fromBlock\<close>, \<^verbatim>\<open>toBlock\<close>, \<^verbatim>\<open>addresses\<close>, \<^verbatim>\<open>topics\<close>), and the log of
  issued calls is what it was: no \<^verbatim>\<open>rawCall\<close> has reached the transport. The first
  four parts give the message of each case, the last part the claim as a whole.
\<close>

theorem searchlogs_fails_fast:
  "(\<not> isFinite fromBlock \<longrightarrow>
      searchlogs D W this fromBlock toBlock addresses topics md rp calls =
        (Inl (Error ''fromBlock must be a number''), calls))
 \<and> (isFinite fromBlock \<and> \<not> isFinite toBlock \<longrightarrow>
      searchlogs D W this fromBlock toBlock addresses topics md rp calls =
        (Inl (Error ''toBlock must be a number.''), calls))
 \<and> (isFinite fromBlock \<and> isFinite toBlock \<and> \<not> isString addresses \<and> \<not> isArray addresses \<longrightarrow>
      searchlogs D W this fromBlock toBlock addresses topics md rp calls =
        (Inl (Error ''addresses must be a string or an array.''), calls))
 \<and> (isFinite fromBlock \<and> isFinite toBlock \<and> (isString addresses \<or> isArray addresses)
      \<and> \<not> isString topics \<and> \<not> isArray topics \<longrightarrow>
      searchlogs D W this fromBlock toBlock addresses topics md rp calls =
        (Inl (Error ''topics must be a string or an array.''), calls))
 \<and> (\<not> isFinite fromBlock \<or> \<not> isFinite toBlock
      \<or> (\<not> isString addresses \<and> \<not> isArray addresses)
      \<or> (\<not> isString topics \<and> \<not> isArray topics) \<longrightarrow>
      (\<exists>param msg.
         (param, False) \<in> set [(''fromBlock'', isFinite fromBlock), (''toBlock'', isFinite toBlock),
            (''addresses'', isString addresses \<or> isArray addresses),
            (''topics'', isString topics \<or> isArray topics)]
         \<and> prefix param msg
         \<and> searchlogs D W this fromBlock toBlock addresses topics md rp calls =
             (Inl (Error msg), calls)))"
proof -
  let ?r = "searchlogs D W this fromBlock toBlock addresses topics md rp calls"
  have a: "\<not> isFinite fromBlock \<Longrightarrow> ?r = (Inl (Error ''fromBlock must be a number''), calls)"
    by (simp add: searchlogs_def)
  have b: "isFinite fromBlock \<Longrightarrow> \<not> isFinite toBlock \<Longrightarrow>
      ?r = (Inl (Error ''toBlock must be a number.''), calls)"
    by (simp add: searchlogs_def)
  have c: "isFinite fromBlock \<Longrightarrow> isFinite toBlock \<Longrightarrow> \<not> isString addresses \<Longrightarrow> \<not> isArray addresses \<Longrightarrow>
      ?r = (Inl (Error ''addresses must be a string or an array.''), calls)"
    by (simp add: searchlogs_def)
  have d: "isFinite fromBlock \<Longrightarrow> isFinite toBlock \<Longrightarrow> isString addresses \<or> isArray addresses \<Longrightarrow>
      \<not> isString topics \<Longrightarrow> \<not> isArray topics \<Longrightarrow>
      ?r = (Inl (Error ''topics must be a string or an array.''), calls)"
    by (auto simp add: searchlogs_def)
  have p1: "prefix ''fromBlock'' ''fromBlock must be a number''" by (simp add: prefix_def)
  have p2: "prefix ''toBlock'' ''toBlock must be a number.''" by (simp add: prefix_def)
  have p3: "prefix ''addresses'' ''addresses must be a string or an array.''" by (simp add: prefix_def)
  have p4: "prefix ''topics'' ''topics must be a string or an array.''" by (simp add: prefix_def)
  have e: "\<exists>param msg.
         (param, False) \<in> set [(''fromBlock'', isFinite fromBlock), (''toBlock'', isFinite toBlock),
            (''addresses'', isString addresses \<or> isArray addresses),
            (''topics'', isString topics \<or> isArray topics)]
         \<and> prefix param msg \<and> ?r = (Inl (Error msg), calls)"
    if bad: "\<not> isFinite fromBlock \<or> \<not> isFinite toBlock
      \<or> (\<not> isString addresses \<and> \<not> isArray addresses)
      \<or> (\<not> isString topics \<and> \<not> isArray topics)"
  proof (cases "isFinite fromBlock")
    case False
    with a p1 show ?thesis by (intro exI [of _ "''fromBlock''"] exI [of _ "''fromBlock must be a number''"]) simp
  next
    case fb: True
    show ?thesis
    proof (cases "isFinite toBlock")
      case False
      with b fb p2 show ?thesis
        by (intro exI [of _ "''toBlock''"] exI [of _ "''toBlock must be a number.''"]) simp
    next
      case tb: True
      show ?thesis
      proof (cases "isString addresses \<or> isArray addresses")
        case False
        with c fb tb p3 show ?thesis
          by (intro exI [of _ "''addresses''"] exI [of _ "''addresses must be a string or an array.''"]) simp
      next
        case ad: True
        with bad fb tb have "\<not> isString topics \<and> \<not> isArray topics" by blast
        with d fb tb ad p4 show ?thesis
          by (intro exI [of _ "''topics''"] exI [of _ "''topics must be a string or an array.''"]) simp
      qed
    qed
  qed
  from a b c d e show ?thesis by blast
qed

theorem searchlogs_fails_fast_witness:
  "searchlogs taggingDecoder echoTransport sampleWeb3
      (JStr ''5'') (JNum (Fin 10)) (JStr ''a'') (JStr ''t'') JNull JUndefined [] =
     (Inl (Error ''fromBlock must be a number''), [])
 \<and> searchlogs taggingDecoder echoTransport sampleWeb3
      (JNum (Fin 0)) (JNum NaN) (JStr ''a'') (JStr ''t'') JNull JUndefined [] =
     (Inl (Error ''toBlock must be a number.''), [])
 \<and> searchlogs taggingDecoder echoTransport sampleWeb3
      (JNum (Fin 0)) (JNum (Fin 10)) (JNum (Fin 7)) (JStr ''t'') JNull JUndefined [] =
     (Inl (Error ''addresses must be a string or an array.''), [])
 \<and> searchlogs taggingDecoder echoTransport sampleWeb3
      (JNum (Fin 0)) (JNum (Fin 10)) (JArr [JStr ''a'']) JNull JNull JUndefined [] =
     (Inl (Error ''topics must be a string or an array.''), [])"
proof -
  have 1: "\<not> isFinite (JStr ''5'')" by (simp add: isFinite_def)
  have 2: "isFinite (JNum (Fin 0)) \<and> \<not> isFinite (JNum NaN)" by (simp add: isFinite_def)
  have 3: "isFinite (JNum (Fin 0)) \<and> isFinite (JNum (Fin 10))
      \<and> \<not> isString (JNum (Fin 7)) \<and> \<not> isArray (JNum (Fin 7))"
    by (simp add: isFinite_def isString_def isArray_def)
  have 4: "isFinite (JNum (Fin 0)) \<and> isFinite (JNum (Fin 10))
      \<and> (isString (JArr [JStr ''a'']) \<or> isArray (JArr [JStr ''a'']))
      \<and> \<not> isString JNull \<and> \<not> isArray JNull"
    by (simp add: isFinite_def isString_def isArray_def)
  have a: "searchlogs taggingDecoder echoTransport sampleWeb3
      (JStr ''5'') (JNum (Fin 10)) (JStr ''a'') (JStr ''t'') JNull JUndefined [] =
     (Inl (Error ''fromBlock must be a number''), [])"
    using 1 searchlogs_fails_fast [of "JStr ''5''" taggingDecoder echoTransport sampleWeb3
        "JNum (Fin 10)" "JStr ''a''" "JStr ''t''" JNull JUndefined "[]"]
    by (elim conjE) simp
  have b: "searchlogs taggingDecoder echoTransport sampleWeb3
      (JNum (Fin 0)) (JNum NaN) (JStr ''a'') (JStr ''t'') JNull JUndefined [] =
     (Inl (Error ''toBlock must be a number.''), [])"
    using 2 searchlogs_fails_fast [of "JNum (Fin 0)" taggingDecoder echoTransport sampleWeb3
        "JNum NaN" "JStr ''a''" "JStr ''t''" JNull JUndefined "[]"]
    by (elim conjE) simp
  have c: "searchlogs taggingDecoder echoTransport sampleWeb3
      (JNum (Fin 0)) (JNum (Fin 10)) (JNum (Fin 7)) (JStr ''t'') JNull JUndefined [] =
     (Inl (Error ''addresses must be a string or an array.''), [])"
    using 3 searchlogs_fails_fast [of "JNum (Fin 0)" taggingDecoder echoTransport sampleWeb3
        "JNum (Fin 10)" "JNum (Fin 7)" "JStr ''t''" JNull JUndefined "[]"]
    by (elim conjE) simp
  have d: "searchlogs taggingDecoder echoTransport sampleWeb3
      (JNum (Fin 0)) (JNum (Fin 10)) (JArr [JStr ''a'']) JNull JNull JUndefined [] =
     (Inl (Error ''topics must be a string or an array.''), [])"
    using 4 searchlogs_fails_fast [of "JNum (Fin 0)" taggingDecoder echoTransport sampleWeb3
        "JNum (Fin 10)" "JArr [JStr ''a'']" JNull JNull JUndefined "[]"]
    by (elim conjE) simp
  from a b c d show ?thesis by simp
qed

section \<open>Filters of \<^verbatim>\<open>searchlogs\<close>\<close>

text \<open>
  Claim C6. \<^verbatim>\<open>searchlogs\<close> resolves its string-or-array filters once, before the
  call: a string \<^verbatim>\<open>addresses\<close> (or \<^verbatim>\<open>topics\<close>) becomes a one-element array, an
  array is passed as it is, and these sequences are what the transport receives. With
  finite block numbers and a protocol whose \<^verbatim>\<open>rawCall\<close> is a function, exactly one
  call is issued, \<^verbatim>\<open>rawCall('searchlogs', [fromBlock, toBlock, {addresses: A}, {topics: T}])\<close>,
  where \<open>A\<close> and \<open>T\<close> are the resolved sequences, each carried as the single field
  of an object. The four parts are the four combinations of string and array.
\<close>

theorem searchlogs_canonical_filters:
  assumes "isFinite fromBlock" and "isFinite toBlock"
    and "member (protocol this) ''rawCall'' = Inr (JFun f)"
  shows "snd (searchlogs D W this fromBlock toBlock (JStr a) (JStr t) md rp calls) =
      calls @ [(''searchlogs'', Some [fromBlock, toBlock,
        JObj [(''addresses'', JArr [JStr a])], JObj [(''topics'', JArr [JStr t])]])]
    \<and> snd (searchlogs D W this fromBlock toBlock (JStr a) (JArr ts) md rp calls) =
      calls @ [(''searchlogs'', Some [fromBlock, toBlock,
        JObj [(''addresses'', JArr [JStr a])], JObj [(''topics'', JArr ts)]])]
    \<and> snd (searchlogs D W this fromBlock toBlock (JArr as) (JStr t) md rp calls) =
      calls @ [(''searchlogs'', Some [fromBlock, toBlock,
        JObj [(''addresses'', JArr as)], JObj [(''topics'', JArr [JStr t])]])]
    \<and> snd (searchlogs D W this fromBlock toBlock (JArr as) (JArr ts) md rp calls) =
      calls @ [(''searchlogs'', Some [fromBlock, toBlock,
        JObj [(''addresses'', JArr as)], JObj [(''topics'', JArr ts)]])]"
  using assms(1,2)
  by (simp add: searchlogs_def isString_def isArray_def rawCall_function [OF assms(3)]
      split: sum.split)

theorem searchlogs_canonical_filters_witness:
  "snd (searchlogs taggingDecoder echoTransport sampleWeb3 (JNum (Fin 0)) (JNum (Fin (- 1)))
          (JStr ''a1'') (JArr [JStr ''t1'', JNull]) JNull JUndefined []) =
     [(''searchlogs'', Some [JNum (Fin 0), JNum (Fin (- 1)),
        JObj [(''addresses'', JArr [JStr ''a1''])],
        JObj [(''topics'', JArr [JStr ''t1'', JNull])]])]"
proof -
  have "isFinite (JNum (Fin 0))" and "isFinite (JNum (Fin (- 1)))"
    by (simp_all add: isFinite_def)
  from searchlogs_canonical_filters [OF this sampleProvider_rawCall,
      where D = taggingDecoder and W = echoTransport and a = "''a1''"
        and ts = "[JStr ''t1'', JNull]" and md = JNull and rp = JUndefined and calls = "[]"]
  show ?thesis by simp
qed

section \<open>Result of \<^verbatim>\<open>searchlogs\<close>\<close>

text \<open>
  Claim C7. When the arguments are valid and the transport's promise for the
  \<^verbatim>\<open>searchlogs\<close> call is fulfilled with \<open>results\<close>, the promise that
  \<^verbatim>\<open>searchlogs\<close> returns settles as
  \<^verbatim>\<open>decodeSearchLog(results, contractMetadata, removeHexPrefix)\<close> does: fulfilled with
  the decoded value it returns (not with the raw entries), and rejected with what it
  throws, should it throw. The results reach the decoder as the transport gave them.
\<close>

theorem searchlogs_decodes_results:
  assumes "isFinite fromBlock" and "isFinite toBlock"
    and "isString addresses \<or> isArray addresses"
    and "isString topics \<or> isArray topics"
    and "member (protocol this) ''rawCall'' = Inr (JFun f)"
    and "W f calls ''searchlogs'' (Some [fromBlock, toBlock,
           JObj [(''addresses'', if isString addresses then JArr [addresses] else addresses)],
           JObj [(''topics'', if isString topics then JArr [topics] else topics)]])
         = Inr (Fulfilled results)"
  shows "fst (searchlogs D W this fromBlock toBlock addresses topics md rp calls) =
     Inr (case D results md rp of Inr decoded \<Rightarrow> Fulfilled decoded | Inl e \<Rightarrow> Rejected e)"
proof -
  from assms(3) have a: "\<not> isString addresses \<Longrightarrow> isArray addresses" by blast
  from assms(4) have t: "\<not> isString topics \<Longrightarrow> isArray topics" by blast
  show ?thesis
  proof (cases "isString addresses"; cases "isString topics")
  qed (use assms(1,2,6) a t in
        \<open>simp_all add: searchlogs_def rawCall_function [OF assms(5)] split: sum.splits\<close>)
qed

theorem searchlogs_decodes_results_witness:
  "fst (searchlogs taggingDecoder echoTransport sampleWeb3 (JNum (Fin 0)) (JNum (Fin (- 1)))
          (JStr ''a1'') (JArr []) (JObj []) (JBool True) []) =
     Inr (Fulfilled (JObj [(''decoded'', JArr [JNum (Fin 0), JNum (Fin (- 1)),
        JObj [(''addresses'', JArr [JStr ''a1''])], JObj [(''topics'', JArr [])]]),
        (''metadata'', JObj []), (''removeHexPrefix'', JBool True)]))"
proof -
  have 1: "isFinite (JNum (Fin 0))" and 2: "isFinite (JNum (Fin (- 1)))"
    by (simp_all add: isFinite_def)
  have 3: "isString (JStr ''a1'') \<or> isArray (JStr ''a1'')" by (simp add: isString_def)
  have 4: "isString (JArr []) \<or> isArray (JArr [])" by (simp add: isArray_def)
  have 5: "echoTransport (Closure 0) [] ''searchlogs'' (Some [JNum (Fin 0), JNum (Fin (- 1)),
           JObj [(''addresses'', if isString (JStr ''a1'') then JArr [JStr ''a1''] else JStr ''a1'')],
           JObj [(''topics'', if isString (JArr []) then JArr [JArr []] else JArr [])]])
         = Inr (Fulfilled (JArr [JNum (Fin 0), JNum (Fin (- 1)),
             JObj [(''addresses'', JArr [JStr ''a1''])], JObj [(''topics'', JArr [])]]))"
    by (simp add: echoTransport_def isString_def)
  from searchlogs_decodes_results [where W = echoTransport and f = "Closure 0"
      and D = taggingDecoder and md = "JObj []" and rp = "JBool True",
      OF 1 2 3 4 sampleProvider_rawCall 5]
  show ?thesis by (simp add: taggingDecoder_def)
qed

section \<open>Pass-through methods\<close>

text \<open>
  Claim C8, as amended. Every pass-through method issues exactly one call and returns what
  the transport returns for it; the parameter array holds the method's arguments in
  order, where an argument that is \<^verbatim>\<open>undefined\<close> (or left out) is replaced by the
  default its parameter declares. So \<^verbatim>\<open>getblock(blockHash, verbose)\<close> returns
  \<^verbatim>\<open>rawCall('getblock', [blockHash, verbose])\<close> with \<^verbatim>\<open>verbose\<close> defaulting to
  \<^verbatim>\<open>true\<close>, and \<^verbatim>\<open>sendtoaddress(luxaddress, amount, comment, commentTo)\<close> returns
  \<^verbatim>\<open>rawCall('sendtoaddress', [luxaddress, amount, comment, commentTo])\<close> with
  \<^verbatim>\<open>comment\<close> and \<^verbatim>\<open>commentTo\<close> each defaulting to the empty string. The theorem
  covers all thirty-one pass-through methods of the class, for a protocol whose
  \<^verbatim>\<open>rawCall\<close> is the function \<open>f\<close>.
\<close>

lemmas passthrough_defs =
  getblock_def getblockchaininfo_def getblockcount_def getblockhash_def
  gettransactionreceipt_def listcontracts_def getpeerinfo_def gethexaddress_def
  fromhexaddress_def validateaddress_def backupwallet_def dumpprivkey_def encryptwallet_def
  getaccount_def getAccountAddress_def getaddressesbyaccount_def getnewaddress_def
  gettransaction_def getwalletinfo_def getunconfirmedbalance_def importaddress_def
  importprivkey_def importwallet_def listaddressgroupings_def listlockunspent_def
  listunspent_def sendtoaddress_def settxfee_def walletlock_def walletpassphrase_def
  walletpassphrasechange_def

theorem passthrough_forwards:
  assumes "member (protocol this) ''rawCall'' = Inr (JFun f)"
  shows "getblock W this blockHash verbose calls =
      (W f calls ''getblock'' (Some [blockHash, orDefault verbose (JBool True)]),
       calls @ [(''getblock'', Some [blockHash, orDefault verbose (JBool True)])])
  \<and> getblockchaininfo W this calls =
      (W f calls ''getblockchaininfo'' (None),
       calls @ [(''getblockchaininfo'', None)])
  \<and> getblockcount W this calls =
      (W f calls ''getblockcount'' (None),
       calls @ [(''getblockcount'', None)])
  \<and> getblockhash W this blockNum calls =
      (W f calls ''getblockhash'' (Some [blockNum]),
       calls @ [(''getblockhash'', Some [blockNum])])
  \<and> gettransactionreceipt W this txid calls =
      (W f calls ''gettransactionreceipt'' (Some [txid]),
       calls @ [(''gettransactionreceipt'', Some [txid])])
  \<and> listcontracts W this startingAcctIndex maxDisplay calls =
      (W f calls ''listcontracts'' (Some [orDefault startingAcctIndex (JNum (Fin 1)), orDefault maxDisplay (JNum (Fin 20))]),
       calls @ [(''listcontracts'', Some [orDefault startingAcctIndex (JNum (Fin 1)), orDefault maxDisplay (JNum (Fin 20))])])
  \<and> getpeerinfo W this calls =
      (W f calls ''getpeerinfo'' (None),
       calls @ [(''getpeerinfo'', None)])
  \<and> gethexaddress W this address calls =
      (W f calls ''gethexaddress'' (Some [address]),
       calls @ [(''gethexaddress'', Some [address])])
  \<and> fromhexaddress W this hexAddress calls =
      (W f calls ''fromhexaddress'' (Some [hexAddress]),
       calls @ [(''fromhexaddress'', Some [hexAddress])])
  \<and> validateaddress W this address calls =
      (W f calls ''validateaddress'' (Some [address]),
       calls @ [(''validateaddress'', Some [address])])
  \<and> backupwallet W this destination calls =
      (W f calls ''backupwallet'' (Some [destination]),
       calls @ [(''backupwallet'', Some [destination])])
  \<and> dumpprivkey W this address calls =
      (W f calls ''dumpprivkey'' (Some [address]),
       calls @ [(''dumpprivkey'', Some [address])])
  \<and> encryptwallet W this passphrase calls =
      (W f calls ''encryptwallet'' (Some [passphrase]),
       calls @ [(''encryptwallet'', Some [passphrase])])
  \<and> getaccount W this address calls =
      (W f calls ''getaccount'' (Some [address]),
       calls @ [(''getaccount'', Some [address])])
  \<and> getAccountAddress W this acctName calls =
      (W f calls ''getaccountaddress'' (Some [orDefault acctName (JStr [])]),
       calls @ [(''getaccountaddress'', Some [orDefault acctName (JStr [])])])
  \<and> getaddressesbyaccount W this acctName calls =
      (W f calls ''getaddressesbyaccount'' (Some [orDefault acctName (JStr [])]),
       calls @ [(''getaddressesbyaccount'', Some [orDefault acctName (JStr [])])])
  \<and> getnewaddress W this acctName calls =
      (W f calls ''getnewaddress'' (Some [orDefault acctName (JStr [])]),
       calls @ [(''getnewaddress'', Some [orDefault acctName (JStr [])])])
  \<and> gettransaction W this txid calls =
      (W f calls ''gettransaction'' (Some [txid]),
       calls @ [(''gettransaction'', Some [txid])])
  \<and> getwalletinfo W this calls =
      (W f calls ''getwalletinfo'' (None),
       calls @ [(''getwalletinfo'', None)])
  \<and> getunconfirmedbalance W this calls =
      (W f calls ''getunconfirmedbalance'' (None),
       calls @ [(''getunconfirmedbalance'', None)])
  \<and> importaddress W this address label rescan calls =
      (W f calls ''importaddress'' (Some [address, orDefault label (JStr []), orDefault rescan (JBool True)]),
       calls @ [(''importaddress'', Some [address, orDefault label (JStr []), orDefault rescan (JBool True)])])
  \<and> importprivkey W this privateKey label rescan calls =
      (W f calls ''importprivkey'' (Some [privateKey, orDefault label (JStr []), orDefault rescan (JBool True)]),
       calls @ [(''importprivkey'', Some [privateKey, orDefault label (JStr []), orDefault rescan (JBool True)])])
  \<and> importwallet W this filename calls =
      (W f calls ''importwallet'' (Some [filename]),
       calls @ [(''importwallet'', Some [filename])])
  \<and> listaddressgroupings W this calls =
      (W f calls ''listaddressgroupings'' (None),
       calls @ [(''listaddressgroupings'', None)])
  \<and> listlockunspent W this calls =
      (W f calls ''listlockunspent'' (None),
       calls @ [(''listlockunspent'', None)])
  \<and> listunspent W this calls =
      (W f calls ''listunspent'' (None),
       calls @ [(''listunspent'', None)])
  \<and> sendtoaddress W this luxaddress amount comment commentTo calls =
      (W f calls ''sendtoaddress'' (Some [luxaddress, amount, orDefault comment (JStr []), orDefault commentTo (JStr [])]),
       calls @ [(''sendtoaddress'', Some [luxaddress, amount, orDefault comment (JStr []), orDefault commentTo (JStr [])])])
  \<and> settxfee W this amount calls =
      (W f calls ''settxfee'' (Some [amount]),
       calls @ [(''settxfee'', Some [amount])])
  \<and> walletlock W this calls =
      (W f calls ''walletlock'' (None),
       calls @ [(''walletlock'', None)])
  \<and> walletpassphrase W this passphrase timeout anonymizeonly calls =
      (W f calls ''walletpassphrase'' (Some [passphrase, timeout, orDefault anonymizeonly (JBool False)]),
       calls @ [(''walletpassphrase'', Some [passphrase, timeout, orDefault anonymizeonly (JBool False)])])
  \<and> walletpassphrasechange W this oldPassphrase newPassphrase calls =
      (W f calls ''walletpassphrasechange'' (Some [oldPassphrase, newPassphrase]),
       calls @ [(''walletpassphrasechange'', Some [oldPassphrase, newPassphrase])])"
  unfolding passthrough_defs rawCall_function [OF assms] by simp

theorem passthrough_forwards_witness:
  "getblock echoTransport sampleWeb3 (JStr ''00ab'') (JBool False) [] =
     (Inr (Fulfilled (JArr [JStr ''00ab'', JBool False])),
      [(''getblock'', Some [JStr ''00ab'', JBool False])])
 \<and> getblock echoTransport sampleWeb3 (JStr ''00ab'') JUndefined [] =
     (Inr (Fulfilled (JArr [JStr ''00ab'', JBool True])),
      [(''getblock'', Some [JStr ''00ab'', JBool True])])
 \<and> sendtoaddress echoTransport sampleWeb3 (JStr ''LaddrX'') (JNum (Fin 5)) (JStr ''rent'')
       (JStr ''Bob'') [] =
     (Inr (Fulfilled (JArr [JStr ''LaddrX'', JNum (Fin 5), JStr ''rent'', JStr ''Bob''])),
      [(''sendtoaddress'', Some [JStr ''LaddrX'', JNum (Fin 5), JStr ''rent'', JStr ''Bob''])])"
  using passthrough_forwards [OF sampleProvider_rawCall, where W = echoTransport and calls = "[]"]
  by (simp add: echoTransport_def orDefault_def)

text \<open>
  The claim as stated fails where it names no default: called with \<^verbatim>\<open>comment\<close> and
  \<^verbatim>\<open>commentTo\<close> undefined, \<^verbatim>\<open>sendtoaddress\<close> forwards two empty strings, which is
  not the call \<^verbatim>\<open>rawCall('sendtoaddress', [luxaddress, amount, undefined, undefined])\<close>.
\<close>

theorem sendtoaddress_defaults_counterexample:
  "sendtoaddress echoTransport sampleWeb3 (JStr ''LaddrX'') (JNum (Fin 5)) JUndefined JUndefined [] =
     (Inr (Fulfilled (JArr [JStr ''LaddrX'', JNum (Fin 5), JStr [], JStr []])),
      [(''sendtoaddress'', Some [JStr ''LaddrX'', JNum (Fin 5), JStr [], JStr []])])
 \<and> sendtoaddress echoTransport sampleWeb3 (JStr ''LaddrX'') (JNum (Fin 5)) JUndefined JUndefined [] \<noteq>
     rawCall echoTransport (protocol sampleWeb3) ''sendtoaddress''
       (Some [JStr ''LaddrX'', JNum (Fin 5), JUndefined, JUndefined]) []"
  by (simp add: sendtoaddress_def rawCall_function [OF sampleProvider_rawCall]
      echoTransport_def orDefault_def)

section \<open>\<^verbatim>\<open>isConnected\<close>\<close>

text \<open>
  Claim C9. \<^verbatim>\<open>isConnected\<close> never rejects (and, being \<^verbatim>\<open>async\<close>, never throws): for
  every protocol, its promise is fulfilled with \<^verbatim>\<open>true\<close> exactly when the
  \<^verbatim>\<open>getnetworkinfo\<close> call is fulfilled with a value whose \<^verbatim>\<open>typeof\<close> is
  \<^verbatim>\<open>'object'\<close>; it is fulfilled with \<^verbatim>\<open>false\<close> when the call's promise is
  rejected, when the call itself throws, and when it is fulfilled with a value of another
  type.
\<close>

theorem isConnected_never_rejects:
  "(\<forall>e. fst (isConnected W this calls) \<noteq> Rejected e)
 \<and> (fst (isConnected W this calls) = Fulfilled (JBool True) \<longleftrightarrow>
      (\<exists>res. fst (rawCall W (protocol this) ''getnetworkinfo'' None calls) = Inr (Fulfilled res)
             \<and> typeof res = ''object''))
 \<and> ((\<exists>e. fst (rawCall W (protocol this) ''getnetworkinfo'' None calls) = Inr (Rejected e))
      \<longrightarrow> fst (isConnected W this calls) = Fulfilled (JBool False))
 \<and> ((\<exists>e. fst (rawCall W (protocol this) ''getnetworkinfo'' None calls) = Inl e)
      \<longrightarrow> fst (isConnected W this calls) = Fulfilled (JBool False))
 \<and> ((\<exists>res. fst (rawCall W (protocol this) ''getnetworkinfo'' None calls) = Inr (Fulfilled res)
             \<and> typeof res \<noteq> ''object'')
      \<longrightarrow> fst (isConnected W this calls) = Fulfilled (JBool False))"
proof -
  obtain r calls' where rc: "rawCall W (protocol this) ''getnetworkinfo'' None calls = (r, calls')"
    by (cases "rawCall W (protocol this) ''getnetworkinfo'' None calls")
  show ?thesis
  proof (cases r)
    case (Inl e)
    with rc show ?thesis by (simp add: isConnected_def)
  next
    case (Inr pr)
    with rc show ?thesis by (cases pr) (auto simp add: isConnected_def)
  qed
qed

theorem isConnected_never_rejects_witness:
  "fst (isConnected echoTransport sampleWeb3 []) = Fulfilled (JBool True)
 \<and> fst (isConnected rejectingTransport sampleWeb3 []) = Fulfilled (JBool False)
 \<and> fst (isConnected echoTransport \<lparr>protocol = JObj []\<rparr> []) = Fulfilled (JBool False)"
proof -
  have 1: "\<exists>res. fst (rawCall echoTransport (protocol sampleWeb3) ''getnetworkinfo'' None [])
      = Inr (Fulfilled res) \<and> typeof res = ''object''"
    by (simp add: rawCall_function [OF sampleProvider_rawCall] echoTransport_def)
  have 2: "\<exists>e. fst (rawCall rejectingTransport (protocol sampleWeb3) ''getnetworkinfo'' None [])
      = Inr (Rejected e)"
    by (simp add: rawCall_function [OF sampleProvider_rawCall] rejectingTransport_def)
  have 3: "\<exists>e. fst (rawCall echoTransport (protocol \<lparr>protocol = JObj []\<rparr>) ''getnetworkinfo'' None [])
      = Inl e"
    by (simp add: rawCall_def)
  have a: "fst (isConnected echoTransport sampleWeb3 []) = Fulfilled (JBool True)"
    using 1 isConnected_never_rejects [of echoTransport sampleWeb3 "[]"] by (elim conjE) simp
  have b: "fst (isConnected rejectingTransport sampleWeb3 []) = Fulfilled (JBool False)"
    using 2 isConnected_never_rejects [of rejectingTransport sampleWeb3 "[]"] by (elim conjE) simp
  have c: "fst (isConnected echoTransport \<lparr>protocol = JObj []\<rparr> []) = Fulfilled (JBool False)"
    using 3 isConnected_never_rejects [of echoTransport "\<lparr>protocol = JObj []\<rparr>" "[]"]
    by (elim conjE) simp
  from a b c show ?thesis by simp
qed

section \<open>Protocol selection\<close>

text \<open>
  Claim C10, as amended. \<^verbatim>\<open>initProtocol\<close> classifies every argument: a falsy one
  throws \<^verbatim>\<open>Error('protocol cannot be undefined.')\<close>; a non-empty string yields a new
  \<^verbatim>\<open>HttpProtocol\<close> built from it; any other value without a function-valued
  \<^verbatim>\<open>rawCall\<close> throws \<^verbatim>\<open>Error('protocol is not a compatible Web3 Provider.')\<close>; a
  value with a function-valued \<^verbatim>\<open>rawCall\<close> is returned as it is. Hence the protocol
  of a constructed \<^verbatim>\<open>Web3\<close> instance exposes \<^verbatim>\<open>rawCall\<close>. The last two parts
  say that the four cases leave no value out and that the fourth excludes the others (as
  the first three exclude one another by what they assume).
\<close>

theorem initProtocol_classifies:
  "(\<not> truthy p \<longrightarrow> initProtocol p = Inl (Error ''protocol cannot be undefined.''))
 \<and> (\<forall>url. url \<noteq> [] \<longrightarrow> initProtocol (JStr url) = Inr (JHttpProtocol url))
 \<and> (truthy p \<and> typeof p \<noteq> ''string'' \<and> (\<forall>f. member p ''rawCall'' \<noteq> Inr (JFun f))
      \<longrightarrow> initProtocol p = Inl (Error ''protocol is not a compatible Web3 Provider.''))
 \<and> (\<forall>f. member p ''rawCall'' = Inr (JFun f) \<longrightarrow> initProtocol p = Inr p)
 \<and> (\<forall>w. Web3 p = Inr w \<longrightarrow> (\<exists>f. member (protocol w) ''rawCall'' = Inr (JFun f)))
 \<and> (\<not> truthy p
      \<or> (\<exists>url. url \<noteq> [] \<and> p = JStr url)
      \<or> (truthy p \<and> typeof p \<noteq> ''string'' \<and> (\<forall>f. member p ''rawCall'' \<noteq> Inr (JFun f)))
      \<or> (\<exists>f. member p ''rawCall'' = Inr (JFun f)))
 \<and> (\<forall>f. member p ''rawCall'' = Inr (JFun f) \<longrightarrow> truthy p \<and> typeof p \<noteq> ''string'')"
proof (intro conjI allI impI)
  assume "\<not> truthy p"
  then show "initProtocol p = Inl (Error ''protocol cannot be undefined.'')"
    by (simp add: initProtocol_def)
next
  fix url :: string assume "url \<noteq> []"
  then show "initProtocol (JStr url) = Inr (JHttpProtocol url)"
    by (simp add: initProtocol_def)
next
  assume "truthy p \<and> typeof p \<noteq> ''string'' \<and> (\<forall>f. member p ''rawCall'' \<noteq> Inr (JFun f))"
  then show "initProtocol p = Inl (Error ''protocol is not a compatible Web3 Provider.'')"
    by (cases p) (auto simp: initProtocol_def typeof_function split: option.splits)
next
  fix f assume "member p ''rawCall'' = Inr (JFun f)"
  then show "initProtocol p = Inr p"
    by (cases p) (auto simp: initProtocol_def split: option.splits if_splits)
next
  fix w assume "Web3 p = Inr w"
  then show "\<exists>f. member (protocol w) ''rawCall'' = Inr (JFun f)"
    by (cases p) (auto simp: Web3_def initProtocol_def typeof_function split: option.splits if_splits sum.splits)
next
  show "\<not> truthy p
      \<or> (\<exists>url. url \<noteq> [] \<and> p = JStr url)
      \<or> (truthy p \<and> typeof p \<noteq> ''string'' \<and> (\<forall>f. member p ''rawCall'' \<noteq> Inr (JFun f)))
      \<or> (\<exists>f. member p ''rawCall'' = Inr (JFun f))"
    by (cases p) auto
next
  fix f assume "member p ''rawCall'' = Inr (JFun f)"
  then show "truthy p" and "typeof p \<noteq> ''string''"
    by (cases p; simp split: if_splits)+
qed

theorem initProtocol_classifies_witness:
  "initProtocol JNull = Inl (Error ''protocol cannot be undefined.'')
 \<and> initProtocol (JStr ''http://127.0.0.1:9888'') = Inr (JHttpProtocol ''http://127.0.0.1:9888'')
 \<and> initProtocol (JNum (Fin 7)) = Inl (Error ''protocol is not a compatible Web3 Provider.'')
 \<and> initProtocol sampleProvider = Inr sampleProvider
 \<and> (\<exists>f. member (protocol sampleWeb3) ''rawCall'' = Inr (JFun f))"
proof -
  have 1: "\<not> truthy JNull" by simp
  have 2: "''http://127.0.0.1:9888'' \<noteq> []" by simp
  have 3: "truthy (JNum (Fin 7)) \<and> typeof (JNum (Fin 7)) \<noteq> ''string''
      \<and> (\<forall>f. member (JNum (Fin 7)) ''rawCall'' \<noteq> Inr (JFun f))" by simp
  have 4: "member sampleProvider ''rawCall'' = Inr (JFun (Closure 0))"
    by (simp add: sampleProvider_def)
  have 5: "Web3 sampleProvider = Inr sampleWeb3"
    by (simp add: Web3_def initProtocol_def sampleWeb3_def sampleProvider_def)
  have a: "initProtocol JNull = Inl (Error ''protocol cannot be undefined.'')"
    using 1 initProtocol_classifies [of JNull] by (elim conjE) simp
  have b: "initProtocol (JStr ''http://127.0.0.1:9888'') = Inr (JHttpProtocol ''http://127.0.0.1:9888'')"
    using 2 initProtocol_classifies [of JNull] by (elim conjE) simp
  have c: "initProtocol (JNum (Fin 7)) = Inl (Error ''protocol is not a compatible Web3 Provider.'')"
    using 3 initProtocol_classifies [of "JNum (Fin 7)"] by (elim conjE) simp
  have d: "initProtocol sampleProvider = Inr sampleProvider"
    using 4 initProtocol_classifies [of sampleProvider] by (elim conjE) simp
  have e: "\<exists>f. member (protocol sampleWeb3) ''rawCall'' = Inr (JFun f)"
    using 5 initProtocol_classifies [of sampleProvider] by (elim conjE) simp
  from a b c d e show ?thesis by simp
qed

text \<open>
  The claim as stated fails at the empty string: it is a string, yet it is falsy, and the
  first test of \<^verbatim>\<open>initProtocol\<close> throws before the string test is reached.
\<close>

theorem initProtocol_empty_string_counterexample:
  "typeof (JStr []) = ''string''
 \<and> initProtocol (JStr []) = Inl (Error ''protocol cannot be undefined.'')
 \<and> initProtocol (JStr []) \<noteq> Inr (JHttpProtocol [])"
  by (simp add: initProtocol_def)

section \<open>The codec: hex strings\<close>

lemma hexValue_hexDigit_all: "list_all (\<lambda>d. hexValue (hexDigit d) = Some d) [0..<16]"
  by code_simp

lemma hexValue_hexDigit: "d < 16 \<Longrightarrow> hexValue (hexDigit d) = Some d"
  using hexValue_hexDigit_all by (simp add: list_all_iff)

lemma fromHexAcc_append:
  "fromHexAcc acc (xs @ ys) =
     (case fromHexAcc acc xs of None \<Rightarrow> None | Some a \<Rightarrow> fromHexAcc a ys)"
  by (induction xs arbitrary: acc) (auto split: option.splits)

lemma fromHexAcc_toHex: "fromHexAcc acc (toHex n v) = Some (acc * 16 ^ n + v mod 16 ^ n)"
proof (induction n arbitrary: v acc)
  case 0
  then show ?case by simp
next
  case (Suc n)
  have "v mod (16 * 16 ^ n) = 16 * (v div 16 mod 16 ^ n) + v mod 16"
    by (simp add: mod_mult2_eq)
  then show ?case
    by (simp add: fromHexAcc_append Suc hexValue_hexDigit algebra_simps)
qed

lemma length_toHex [simp]: "length (toHex n v) = n"
  by (induction n arbitrary: v) auto

lemma fromHex_toHex: "fromHex (toHex n v) = Some (v mod 16 ^ n)"
  by (simp add: fromHex_def fromHexAcc_toHex)

lemma isHex_append [simp]: "isHex (xs @ ys) \<longleftrightarrow> isHex xs \<and> isHex ys"
  by (simp add: isHex_def)

lemma isHex_Nil [simp]: "isHex []"
  by (simp add: isHex_def)

lemma hexDigit_isHex: "hexValue (hexDigit d) \<noteq> None"
  using hexValue_hexDigit [of "d mod 16"] by (simp add: hexDigit_def)

lemma isHex_single [simp]: "isHex [hexDigit d]"
  using hexDigit_isHex [of d] by (simp add: isHex_def)

lemma isHex_toHex [simp]: "isHex (toHex n v)"
  by (induction n arbitrary: v) simp_all

lemma isHex_zeros [simp]: "isHex (replicate n CHR ''0'')"
  by (induction n) (simp_all add: isHex_def hexValue_def hexDigits_def)

lemma isHex_take: "isHex s \<Longrightarrow> isHex (take n s)"
  by (metis append_take_drop_id isHex_append)

lemma isHex_drop: "isHex s \<Longrightarrow> isHex (drop n s)"
  by (metis append_take_drop_id isHex_append)

lemma isHex_concat: "list_all isHex xss \<Longrightarrow> isHex (concat xss)"
  by (induction xss) simp_all

lemma hexValue_x: "hexValue CHR ''x'' = None"
  by (simp add: hexValue_def hexDigits_def)

lemma stripHexPrefix_isHex: "isHex h \<Longrightarrow> stripHexPrefix h = h"
proof (cases h)
  case Nil
  then show ?thesis by (simp add: stripHexPrefix_def)
next
  case (Cons a t)
  assume h: "isHex h"
  show ?thesis
  proof (cases t)
    case Nil
    with Cons show ?thesis by (simp add: stripHexPrefix_def)
  next
    case (Cons b u)
    with h \<open>h = a # t\<close> have "hexValue b \<noteq> None" by (simp add: isHex_def)
    then have "b \<noteq> CHR ''x''" using hexValue_x by auto
    with Cons \<open>h = a # t\<close> show ?thesis by (simp add: stripHexPrefix_def)
  qed
qed

lemma stripHexPrefix_0x: "take 2 s = ''0x'' \<Longrightarrow> stripHexPrefix s = drop 2 s"
  by (simp add: stripHexPrefix_def)

lemma readWord_hexWord: "readWord (hexWord v @ rest) = Some (v mod wordLimit)"
proof -
  have "(16::nat) ^ 64 = wordLimit" by (simp add: wordLimit_def)
  then show ?thesis
    by (simp add: readWord_def hexWord_def fromHex_toHex)
qed

lemma wordLimit_signBit: "wordLimit = 2 * signBit"
  by (simp add: wordLimit_def signBit_def)

lemma signBit_pos: "0 < signBit"
  by (simp add: signBit_def)

lemma power_le_wordLimit: "n \<le> 256 \<Longrightarrow> (2::int) ^ n \<le> int wordLimit"
proof -
  assume "n \<le> 256"
  then have "(2::int) ^ n \<le> 2 ^ 256" by (intro power_increasing) simp_all
  also have "(2::int) ^ 256 = int wordLimit" by (simp add: wordLimit_def)
  finally show ?thesis .
qed

lemma power_le_signBit: "n \<le> 256 \<Longrightarrow> (2::int) ^ (n - 1) \<le> int signBit"
proof -
  assume "n \<le> 256"
  then have "(2::int) ^ (n - 1) \<le> 2 ^ 255" by (intro power_increasing) simp_all
  also have "(2::int) ^ 255 = int signBit" by (simp add: signBit_def)
  finally show ?thesis .
qed

lemma even_paddedLength [simp]: "even (paddedLength n)"
  by (simp add: paddedLength_def)

lemma length_hexWord [simp]: "length (hexWord v) = 64"
  by (simp add: hexWord_def)

lemma isHex_hexWord [simp]: "isHex (hexWord v)"
  by (simp add: hexWord_def)

lemma paddedLength_ge: "n \<le> paddedLength n"
  unfolding paddedLength_def by arith

lemma paddedLength_dvd: "64 dvd paddedLength n"
  by (simp add: paddedLength_def)

lemma length_padRight [simp]: "length (padRight s) = paddedLength (length s)"
  using paddedLength_ge [of "length s"] by (simp add: padRight_def)

lemma isHex_padRight [simp]: "isHex (padRight s) \<longleftrightarrow> isHex s"
  by (simp add: padRight_def)

lemma take_padRight: "take (length s) (padRight s @ rest) = s"
  by (simp add: padRight_def)

lemma fromHex_pair: "a < 16 \<Longrightarrow> b < 16 \<Longrightarrow> fromHex [hexDigit a, hexDigit b] = Some (16 * a + b)"
  by (simp add: fromHex_def hexValue_hexDigit)

lemma toHex_2: "toHex 2 v = [hexDigit (v div 16 mod 16), hexDigit (v mod 16)]"
  by (simp add: numeral_2_eq_2)

lemma bytesOfHex_hexOfBytes: "bytesOfHex (hexOfBytes s) = Some s"
proof (induction s)
  case Nil
  then show ?case by (simp add: hexOfBytes_def)
next
  case (Cons c s)
  let ?v = "of_char c :: nat"
  have "?v mod 256 = ?v" by (rule of_char_mod_256)
  moreover have "fromHex (toHex 2 ?v) = Some (?v mod 16 ^ 2)" by (rule fromHex_toHex)
  ultimately have v: "fromHex [hexDigit (?v div 16 mod 16), hexDigit (?v mod 16)] = Some ?v"
    by (simp add: toHex_2)
  from Cons v show ?case by (simp add: hexOfBytes_def toHex_2)
qed

lemma length_hexOfBytes [simp]: "length (hexOfBytes s) = 2 * length s"
  by (induction s) (simp_all add: hexOfBytes_def)

lemma isHex_hexOfBytes [simp]: "isHex (hexOfBytes s)"
  by (induction s) (simp_all add: hexOfBytes_def)

section \<open>The codec: elementary types\<close>

lemma prefixed: "take 2 s = ''0x'' \<Longrightarrow> CHR ''0'' # CHR ''x'' # drop 2 s = s"
  by (metis append_Cons append_Nil append_take_drop_id)

lemma elemWords_bytes: "64 * ((n + 31) div 32) = paddedLength (2 * n)"
proof -
  have "(2 * n + 63) div (2 * 32) = (2 * n + 63) div 2 div 32" by (rule div_mult2_eq)
  moreover have "(2 * n + 63) div 2 = n + 31" by linarith
  ultimately show ?thesis by (simp add: paddedLength_def)
qed

lemma encodeElem_valid: "validElem e v \<Longrightarrow> \<exists>enc. encodeElem e v = Some enc"
  by (cases e; cases v) (auto simp: stripHexPrefix_0x Let_def)

lemma encodeElem_isHex: "encodeElem e v = Some enc \<Longrightarrow> isHex enc"
  by (cases e; cases v) (auto simp: Let_def padLeft_def split: if_splits)

lemma encodeElem_length_static:
  "encodeElem e v = Some enc \<Longrightarrow> \<not> isDynamicElem e \<Longrightarrow> length enc = 64 * elemWords e"
  by (cases e; cases v) (auto simp: Let_def padLeft_def elemWords_bytes split: if_splits)

lemma paddedLength_pos: "0 < n \<Longrightarrow> 64 \<le> paddedLength n"
proof -
  assume "0 < n"
  then have "64 div 64 \<le> (n + 63) div 64" by (intro div_le_mono) simp
  then show ?thesis by (simp add: paddedLength_def)
qed

lemma encodeElem_length_ge: "encodeElem e v = Some enc \<Longrightarrow> 64 \<le> length enc"
proof (cases e; cases v)
  fix n s assume "e = TBytesN n" "v = VStr s" "encodeElem e v = Some enc"
  then have "0 < n" "length enc = paddedLength (2 * n)"
    by (auto simp: Let_def split: if_splits)
  then show ?thesis using paddedLength_pos [of "2 * n"] by simp
qed (auto simp: Let_def padLeft_def split: if_splits)

lemma encodeElem_even: "encodeElem e v = Some enc \<Longrightarrow> even (length enc)"
proof (cases e; cases v)
qed (auto simp: Let_def padLeft_def split: if_splits)

lemma one_less_wordLimit: "1 < wordLimit"
  by (simp add: wordLimit_def)

lemma decode_encode_bool: "decodeElem TBool (hexWord (if b then 1 else 0) @ rest) = Some (VBool b)"
  using one_less_wordLimit by (simp add: readWord_hexWord)

lemma decode_encode_uint:
  assumes "0 \<le> v" "v < 2 ^ n" "n \<le> 256"
  shows "decodeElem (TUint n) (hexWord (nat (v mod int wordLimit)) @ rest) = Some (VNum v)"
proof -
  from assms power_le_wordLimit [of n] have v: "v < int wordLimit" by linarith
  with assms(1) have "v mod int wordLimit = v" by simp
  moreover from assms(1) v have "nat v mod wordLimit = nat v" by (simp add: nat_less_iff)
  ultimately show ?thesis using assms(1) by (simp add: readWord_hexWord)
qed

lemma decode_encode_int:
  assumes "0 < n" "- (2 ^ (n - 1)) \<le> v" "v < 2 ^ (n - 1)" "n \<le> 256"
  shows "decodeElem (TInt n) (hexWord (nat (v mod int wordLimit)) @ rest) = Some (VNum v)"
proof -
  from assms power_le_signBit [of n]
  have lo: "- int signBit \<le> v" and hi: "v < int signBit" by linarith+
  have p: "int wordLimit = 2 * int signBit" by (simp add: wordLimit_signBit)
  have pos: "0 < int wordLimit" using signBit_pos p by simp
  let ?w = "nat (v mod int wordLimit)"
  have "v mod int wordLimit < int wordLimit" "0 \<le> v mod int wordLimit"
    using pos by simp_all
  then have "?w < wordLimit" by (simp add: nat_less_iff)
  then have w: "?w mod wordLimit = ?w" by simp
  show ?thesis
  proof (cases "0 \<le> v")
    case True
    with hi p have m: "v mod int wordLimit = v" by simp
    from True hi have "\<not> signBit \<le> nat v" by (simp add: nat_less_iff not_le)
    moreover from w m have "nat v mod wordLimit = nat v" by simp
    ultimately show ?thesis using m True by (simp add: readWord_hexWord)
  next
    case False
    have "(v + int wordLimit) mod int wordLimit = v + int wordLimit"
      using False lo p by (intro mod_pos_pos_trivial) simp_all
    then have m: "v mod int wordLimit = v + int wordLimit" by simp
    from lo p have "signBit \<le> nat (v + int wordLimit)" by (simp add: le_nat_iff)
    moreover have "0 \<le> v + int wordLimit" using lo p by simp
    moreover from w m have "nat (v + int wordLimit) mod wordLimit = nat (v + int wordLimit)"
      by simp
    ultimately show ?thesis using m by (simp add: readWord_hexWord)
  qed
qed

lemma decode_encode_address:
  assumes "isHex h" "length h = 40"
  shows "decodeElem TAddress (padLeft 64 h @ rest) = Some (VStr (''0x'' @ h))"
  using assms by (simp add: padLeft_def)

lemma decode_encode_bytesN:
  assumes "isHex h" "length h = 2 * n"
  shows "decodeElem (TBytesN n) (padRight h @ rest) = Some (VStr (''0x'' @ h))"
proof -
  have "take (2 * n) (padRight h @ rest) = h"
    using take_padRight [of h rest] assms(2) by simp
  then show ?thesis using assms by (simp add: elemWords_bytes)
qed

lemma decode_encode_bytes:
  assumes "isHex h" "even (length h)" "length h div 2 < wordLimit"
  shows "decodeElem TBytes (hexWord (length h div 2) @ padRight h @ rest) = Some (VStr (''0x'' @ h))"
proof -
  from assms(2) have l: "2 * (length h div 2) = length h" by simp
  have "take (length h) (padRight h @ rest) = h" by (rule take_padRight)
  then show ?thesis
    using assms paddedLength_ge [of "length h"] by (simp add: readWord_hexWord l)
qed

lemma decode_encode_string:
  assumes "length s < wordLimit"
  shows "decodeElem TString (hexWord (length s) @ padRight (hexOfBytes s) @ rest) = Some (VStr s)"
proof -
  have "take (2 * length s) (padRight (hexOfBytes s) @ rest) = hexOfBytes s"
    using take_padRight [of "hexOfBytes s" rest] by simp
  then show ?thesis
    using assms paddedLength_ge [of "2 * length s"]
    by (simp add: readWord_hexWord bytesOfHex_hexOfBytes)
qed

lemma decode_encode_elem:
  assumes "validElem e v" "supportedElem e" "encodeElem e v = Some enc"
    and "length enc div 2 < wordLimit"
  shows "decodeElem e (enc @ rest) = Some v"
proof (cases e)
  case TBool
  with assms show ?thesis by (cases v) (auto simp: decode_encode_bool simp del: decodeElem.simps)
next
  case (TUint n)
  with assms show ?thesis by (cases v) (auto simp: decode_encode_uint simp del: decodeElem.simps)
next
  case (TInt n)
  with assms show ?thesis by (cases v) (auto simp: decode_encode_int simp del: decodeElem.simps)
next
  case TAddress
  with assms obtain s where v: "v = VStr s" by (cases v) auto
  with assms TAddress have s: "take 2 s = ''0x''" "length s = 42" "isHex (drop 2 s)" by auto
  with assms v TAddress have "enc = padLeft 64 (drop 2 s)"
    by (simp add: stripHexPrefix_0x)
  with s v TAddress show ?thesis
    using decode_encode_address [of "drop 2 s" rest] by (simp add: prefixed del: decodeElem.simps)
next
  case (TBytesN n)
  with assms obtain s where v: "v = VStr s" by (cases v) auto
  with assms TBytesN have s: "take 2 s = ''0x''" "length s = 2 + 2 * n" "isHex (drop 2 s)" "0 < n"
    by auto
  with assms v TBytesN have "enc = padRight (drop 2 s)"
    by (simp add: stripHexPrefix_0x)
  with s v TBytesN show ?thesis
    using decode_encode_bytesN [of "drop 2 s" n rest] by (simp add: prefixed del: decodeElem.simps)
next
  case TBytes
  with assms obtain s where v: "v = VStr s" by (cases v) auto
  with assms TBytes have s: "take 2 s = ''0x''" "even (length s)" "isHex (drop 2 s)" by auto
  let ?h = "drop 2 s"
  from s have ev: "even (length ?h)" by simp
  with assms v TBytes s have enc: "enc = hexWord (length ?h div 2) @ padRight ?h"
    by (simp add: stripHexPrefix_0x)
  have "length ?h \<le> length enc" using paddedLength_ge [of "length ?h"] by (simp add: enc)
  with assms(4) have "length ?h div 2 < wordLimit"
    by (meson div_le_mono le_less_trans)
  with s ev enc v TBytes show ?thesis
    using decode_encode_bytes [of ?h rest] by (simp add: prefixed del: decodeElem.simps)
next
  case TString
  with assms obtain s where v: "v = VStr s" by (cases v) auto
  with assms TString have enc: "enc = hexWord (length s) @ padRight (hexOfBytes s)" by simp
  have "2 * length s \<le> length enc" using paddedLength_ge [of "2 * length s"] by (simp add: enc)
  with assms(4) have "length s < wordLimit" by linarith
  with enc v TString show ?thesis
    using decode_encode_string [of s rest] by (simp del: decodeElem.simps)
qed

section \<open>The codec: arrays\<close>

lemma those_length: "those xs = Some ys \<Longrightarrow> length ys = length xs"
  by (induction xs arbitrary: ys) (auto split: option.splits)

lemma encodeElems_valid:
  "list_all (validElem e) vs \<Longrightarrow> \<exists>encs. those (map (encodeElem e) vs) = Some encs"
proof (induction vs)
  case Nil
  then show ?case by simp
next
  case (Cons v vs)
  then obtain enc encs where "encodeElem e v = Some enc" "those (map (encodeElem e) vs) = Some encs"
    using encodeElem_valid [of e v] by auto
  then show ?case by simp
qed

lemma encodeElems_isHex:
  "those (map (encodeElem e) vs) = Some encs \<Longrightarrow> isHex (concat encs)"
  by (induction vs arbitrary: encs) (auto simp: encodeElem_isHex split: option.splits)

lemma encodeElems_length_ge:
  "those (map (encodeElem e) vs) = Some encs \<Longrightarrow> 64 * length vs \<le> length (concat encs)"
proof (induction vs arbitrary: encs)
  case Nil
  then show ?case by simp
next
  case (Cons v vs)
  then obtain enc encs' where e: "encodeElem e v = Some enc"
    "those (map (encodeElem e) vs) = Some encs'" "encs = enc # encs'"
    by (auto split: option.splits)
  with Cons.IH [of encs'] encodeElem_length_ge [of e v enc] show ?case by simp
qed

lemma decodeStatic_concat:
  assumes "those (map (encodeElem e) vs) = Some encs" "list_all (validElem e) vs"
    and "supportedElem e" "\<not> isDynamicElem e"
    and "length (concat encs) div 2 < wordLimit"
  shows "decodeStatic e (length vs) (concat encs @ rest) = Some vs"
  using assms(1,2,5)
proof (induction vs arbitrary: encs)
  case Nil
  then show ?case by simp
next
  case (Cons v vs)
  then obtain enc encs' where e: "encodeElem e v = Some enc"
    "those (map (encodeElem e) vs) = Some encs'" "encs = enc # encs'"
    by (auto split: option.splits)
  from Cons.prems e have small: "length enc div 2 < wordLimit" "length (concat encs') div 2 < wordLimit"
    by (auto elim: le_less_trans [rotated] intro: div_le_mono)
  from Cons.prems have v: "validElem e v" "list_all (validElem e) vs" by simp_all
  have d: "decodeElem e (enc @ concat encs' @ rest) = Some v"
    using decode_encode_elem [OF v(1) assms(3) e(1) small(1)] .
  have l: "length enc = 64 * elemWords e"
    using encodeElem_length_static [OF e(1) assms(4)] .
  have "decodeStatic e (length vs) (concat encs' @ rest) = Some vs"
    using Cons.IH [OF e(2) v(2) small(2)] .
  with d l e(3) show ?case by simp
qed

lemma encodeElem_blockLength:
  assumes "encodeElem e v = Some enc" "isDynamicElem e" "length enc div 2 < wordLimit"
  shows "blockLength (enc @ rest) = Some (length enc)"
proof (cases e)
  case TBytes
  with assms obtain s where v: "v = VStr s" by (cases v) auto
  let ?h = "stripHexPrefix s"
  from assms v TBytes have enc: "enc = hexWord (length ?h div 2) @ padRight ?h" and ev: "even (length ?h)"
    by (auto simp: Let_def split: if_splits)
  have "length ?h \<le> length enc" using paddedLength_ge [of "length ?h"] by (simp add: enc)
  with assms(3) have "length ?h div 2 < wordLimit" by (meson div_le_mono le_less_trans)
  with ev show ?thesis by (simp add: blockLength_def enc readWord_hexWord)
next
  case TString
  with assms obtain s where v: "v = VStr s" by (cases v) auto
  with assms TString have enc: "enc = hexWord (length s) @ padRight (hexOfBytes s)" by simp
  have "2 * length s \<le> length enc" using paddedLength_ge [of "2 * length s"] by (simp add: enc)
  with assms(3) have "length s < wordLimit" by linarith
  then show ?thesis by (simp add: blockLength_def enc readWord_hexWord)
qed (use assms in auto)

lemma decodeInline_concat:
  assumes "those (map (encodeElem e) vs) = Some encs" "list_all (validElem e) vs"
    and "supportedElem e" "isDynamicElem e"
    and "length (concat encs) div 2 < wordLimit"
  shows "decodeInline e (length vs) (concat encs @ rest) = Some vs"
  using assms(1,2,5)
proof (induction vs arbitrary: encs)
  case Nil
  then show ?case by simp
next
  case (Cons v vs)
  then obtain enc encs' where e: "encodeElem e v = Some enc"
    "those (map (encodeElem e) vs) = Some encs'" "encs = enc # encs'"
    by (auto split: option.splits)
  from Cons.prems e have small: "length enc div 2 < wordLimit" "length (concat encs') div 2 < wordLimit"
    by (auto elim: le_less_trans [rotated] intro: div_le_mono)
  from Cons.prems have v: "validElem e v" "list_all (validElem e) vs" by simp_all
  have d: "decodeElem e (enc @ concat encs' @ rest) = Some v"
    using decode_encode_elem [OF v(1) assms(3) e(1) small(1)] .
  have l: "blockLength (enc @ concat encs' @ rest) = Some (length enc)"
    using encodeElem_blockLength [OF e(1) assms(4) small(1)] .
  have "decodeInline e (length vs) (concat encs' @ rest) = Some vs"
    using Cons.IH [OF e(2) v(2) small(2)] .
  with d l e(3) show ?case by simp
qed

lemma layout_dynamic_length:
  "layout off (map (Pair True) encs) = (head, tail) \<Longrightarrow>
   length head = 64 * length encs \<and> tail = concat encs"
  by (induction encs arbitrary: off head tail) (auto split: prod.splits)

lemma headLength_dynamic: "headLength (map (Pair True) encs) = 32 * length encs"
  by (induction encs) (simp_all add: headLength_def)

lemma decodeOffsets_layout:
  assumes "those (map (encodeElem e) vs) = Some encs" "list_all (validElem e) vs"
    and "supportedElem e"
    and "layout off (map (Pair True) encs) = (head, tail)"
    and "2 * off = length pre + length head + length mid"
    and "length (pre @ head @ mid @ tail) div 2 < wordLimit"
  shows "decodeOffsets e (pre @ head @ mid @ tail @ rest) (length pre) (length vs) = Some vs"
  using assms(1,2,4,5,6)
proof (induction vs arbitrary: encs off head tail pre mid)
  case Nil
  then show ?case by simp
next
  case (Cons v vs)
  from Cons.prems(1) obtain enc encs' where e: "encodeElem e v = Some enc"
    "those (map (encodeElem e) vs) = Some encs'" "encs = enc # encs'"
    by (auto split: option.splits)
  obtain head' tail' where l: "layout (off + length enc div 2) (map (Pair True) encs') = (head', tail')"
    by (cases "layout (off + length enc div 2) (map (Pair True) encs')")
  with Cons.prems(3) e(3) have ht: "head = hexWord off @ head'" "tail = enc @ tail'" by simp_all
  from Cons.prems(2) have v: "validElem e v" "list_all (validElem e) vs" by simp_all
  let ?region = "pre @ head @ mid @ tail @ rest"
  have total: "length (pre @ head @ mid @ tail) div 2 < wordLimit" by (rule Cons.prems(5))
  have "2 * off \<le> length (pre @ head @ mid @ tail)" using Cons.prems(4) by simp
  then have "off \<le> length (pre @ head @ mid @ tail) div 2" by linarith
  with total have off: "off mod wordLimit = off" by simp
  have "length enc \<le> length (pre @ head @ mid @ tail)" by (simp add: ht)
  then have "length enc div 2 \<le> length (pre @ head @ mid @ tail) div 2" by (rule div_le_mono)
  with total have small: "length enc div 2 < wordLimit" by linarith
  have r1: "drop (length pre) ?region = hexWord off @ (head' @ mid @ tail @ rest)"
    by (simp add: ht)
  have "length (pre @ head @ mid) = 2 * off" using Cons.prems(4) by simp
  then have "drop (2 * off) ((pre @ head @ mid) @ (tail @ rest)) = tail @ rest"
    by (metis append_eq_conv_conj)
  then have r2: "drop (2 * off) ?region = enc @ (tail' @ rest)" by (simp add: ht)
  have d: "decodeElem e (drop (2 * off) ?region) = Some v"
    unfolding r2 using decode_encode_elem [OF v(1) assms(3) e(1) small] .
  have w: "readWord (drop (length pre) ?region) = Some off"
    unfolding r1 by (simp add: readWord_hexWord off)
  have ev: "even (length enc)" using encodeElem_even [OF e(1)] .
  have o: "2 * (off + length enc div 2) = length (pre @ hexWord off) + length head' + length (mid @ enc)"
    using Cons.prems(4) ev by (simp add: ht)
  have t: "length ((pre @ hexWord off) @ head' @ (mid @ enc) @ tail') div 2 < wordLimit"
    using total by (simp add: ht)
  have "decodeOffsets e ((pre @ hexWord off) @ head' @ (mid @ enc) @ tail' @ rest)
          (length (pre @ hexWord off)) (length vs) = Some vs"
    using Cons.IH [OF e(2) v(2) l o t] .
  then have "decodeOffsets e ?region (length pre + 64) (length vs) = Some vs"
    by (simp add: ht)
  with d w show ?case by simp
qed

lemma decodeOffsets_headTail:
  assumes "those (map (encodeElem e) vs) = Some encs" "list_all (validElem e) vs"
    and "supportedElem e"
    and "length (headTail (map (Pair True) encs)) div 2 < wordLimit"
  shows "decodeOffsets e (headTail (map (Pair True) encs) @ rest) 0 (length vs) = Some vs"
proof -
  obtain head tail where l: "layout (headLength (map (Pair True) encs)) (map (Pair True) encs) = (head, tail)"
    by (cases "layout (headLength (map (Pair True) encs)) (map (Pair True) encs)")
  then have ht: "headTail (map (Pair True) encs) = head @ tail" by (simp add: headTail_def)
  from l have len: "length head = 64 * length encs" by (simp add: layout_dynamic_length)
  have o: "2 * headLength (map (Pair True) encs) = length ([]::string) + length head + length ([]::string)"
    by (simp add: len headLength_dynamic)
  have t: "length ([] @ head @ [] @ tail) div 2 < wordLimit" using assms(4) by (simp add: ht)
  from decodeOffsets_layout [OF assms(1,2,3) l o t, of rest] show ?thesis by (simp add: ht)
qed

lemma length_headTail_dynamic:
  "length (headTail (map (Pair True) encs)) = 64 * length encs + length (concat encs)"
proof -
  obtain head tail where l: "layout (headLength (map (Pair True) encs)) (map (Pair True) encs) = (head, tail)"
    by (cases "layout (headLength (map (Pair True) encs)) (map (Pair True) encs)")
  then show ?thesis using layout_dynamic_length [OF l] by (simp add: headTail_def)
qed

lemma isHex_layout_head:
  "layout off (map (Pair True) encs) = (head, tail) \<Longrightarrow> isHex head"
  by (induction encs arbitrary: off head tail) (auto split: prod.splits)

lemma isHex_headTail_dynamic:
  assumes "isHex (concat encs)"
  shows "isHex (headTail (map (Pair True) encs))"
proof -
  obtain head tail where l: "layout (headLength (map (Pair True) encs)) (map (Pair True) encs) = (head, tail)"
    by (cases "layout (headLength (map (Pair True) encs)) (map (Pair True) encs)")
  from isHex_layout_head [OF l] layout_dynamic_length [OF l] assms
  show ?thesis by (simp add: headTail_def l)
qed

section \<open>The codec: round trip\<close>

lemma parseType_supported: "parseType T = Some ty \<Longrightarrow> supportedElem (elemOf ty)"
  by (auto simp: parseType_def split: option.splits if_splits)

lemma roundtrip_fixed:
  assumes "list_all (validElem e) vs" "supportedElem e"
  shows "\<exists>h. encodeTyped (FixedArray e (length vs)) (VArr vs) = Some h \<and> isHex h \<and>
    (length h div 2 < wordLimit \<longrightarrow>
       decodeTyped (FixedArray e (length vs)) (h @ rest) = Some (VArr vs))"
proof -
  from encodeElems_valid [OF assms(1)] obtain encs
    where encs: "those (map (encodeElem e) vs) = Some encs" by blast
  have h: "encodeTyped (FixedArray e (length vs)) (VArr vs) = Some (concat encs)"
    by (simp add: encs)
  have x: "isHex (concat encs)" using encodeElems_isHex [OF encs] .
  have "decodeTyped (FixedArray e (length vs)) (concat encs @ rest) = Some (VArr vs)"
    if small: "length (concat encs) div 2 < wordLimit"
  proof (cases "isDynamicElem e")
    case True
    with decodeInline_concat [OF encs assms True small, of rest] show ?thesis by simp
  next
    case False
    with decodeStatic_concat [OF encs assms False small, of rest] show ?thesis by simp
  qed
  with h x show ?thesis by blast
qed

lemma decodeTyped_DynArray:
  assumes "64 * length vs \<le> length body"
    and "length (hexWord (length vs) @ body) div 2 < wordLimit"
    and "(if isDynamicElem e then decodeOffsets e (body @ rest) 0 (length vs)
          else decodeStatic e (length vs) (body @ rest)) = Some vs"
  shows "decodeTyped (DynArray e) ((hexWord (length vs) @ body) @ rest) = Some (VArr vs)"
proof -
  from assms(1,2) have "length vs < wordLimit" by simp
  then have w: "readWord (hexWord (length vs) @ body @ rest) = Some (length vs)"
    by (simp add: readWord_hexWord)
  have len: "\<not> length (hexWord (length vs) @ body @ rest) < 64 + 64 * length vs"
    using assms(1) by simp
  from assms(3) show ?thesis
    unfolding append_assoc decodeTyped.simps w option.case if_not_P [OF len]
    by (cases "isDynamicElem e") simp_all
qed

lemma roundtrip_dynamic:
  assumes "list_all (validElem e) vs" "supportedElem e"
  shows "\<exists>h. encodeTyped (DynArray e) (VArr vs) = Some h \<and> isHex h \<and>
    (length h div 2 < wordLimit \<longrightarrow> decodeTyped (DynArray e) (h @ rest) = Some (VArr vs))"
proof -
  from encodeElems_valid [OF assms(1)] obtain encs
    where encs: "those (map (encodeElem e) vs) = Some encs" by blast
  have n: "length encs = length vs" using those_length [OF encs] by simp
  note ge = encodeElems_length_ge [OF encs]
  show ?thesis
  proof (cases "isDynamicElem e")
    case True
    let ?body = "headTail (map (Pair True) encs)"
    let ?h = "hexWord (length vs) @ ?body"
    have h: "encodeTyped (DynArray e) (VArr vs) = Some ?h" by (simp add: encs True)
    have x: "isHex ?h" using encodeElems_isHex [OF encs] by (simp add: isHex_headTail_dynamic)
    have g: "64 * length vs \<le> length ?body" by (simp add: length_headTail_dynamic n)
    have "decodeTyped (DynArray e) (?h @ rest) = Some (VArr vs)"
      if small: "length ?h div 2 < wordLimit"
    proof -
      from small have "length ?body div 2 < wordLimit" by simp
      from decodeOffsets_headTail [OF encs assms this, of rest] True
      show ?thesis by (intro decodeTyped_DynArray [OF g small]) simp
    qed
    with h x show ?thesis by blast
  next
    case False
    let ?h = "hexWord (length vs) @ concat encs"
    have h: "encodeTyped (DynArray e) (VArr vs) = Some ?h" by (simp add: encs False)
    have x: "isHex ?h" using encodeElems_isHex [OF encs] by simp
    have "decodeTyped (DynArray e) (?h @ rest) = Some (VArr vs)"
      if small: "length ?h div 2 < wordLimit"
    proof -
      from small have "length (concat encs) div 2 < wordLimit" by simp
      from decodeStatic_concat [OF encs assms False this, of rest] False
      show ?thesis by (intro decodeTyped_DynArray [OF ge small]) simp
    qed
    with h x show ?thesis by blast
  qed
qed

lemma roundtrip_typed:
  assumes "validValue ty v" "supportedElem (elemOf ty)"
  shows "\<exists>h. encodeTyped ty v = Some h \<and> isHex h \<and>
    (length h div 2 < wordLimit \<longrightarrow> decodeTyped ty (h @ rest) = Some v)"
proof (cases ty)
  case (Elem e)
  with assms have v: "validElem e v" "supportedElem e" by simp_all
  from encodeElem_valid [OF v(1)] obtain enc where enc: "encodeElem e v = Some enc" by blast
  from decode_encode_elem [OF v enc, of rest] encodeElem_isHex [OF enc] enc Elem
  show ?thesis by simp
next
  case (FixedArray e n)
  with assms obtain vs where "v = VArr vs" "length vs = n" "list_all (validElem e) vs" "supportedElem e"
    by (cases v) auto
  with roundtrip_fixed [of e vs rest] FixedArray show ?thesis by simp
next
  case (DynArray e)
  with assms obtain vs where "v = VArr vs" "list_all (validElem e) vs" "supportedElem e"
    by (cases v) auto
  with roundtrip_dynamic [of e vs rest] DynArray show ?thesis by simp
qed

lemma toHex_numeral:
  "toHex (numeral k) v = toHex (pred_numeral k) (v div 16) @ [hexDigit (v mod 16)]"
  by (subst numeral_eq_Suc) simp

text \<open>
  Claim C1. For every supported type descriptor \<open>T\<close> and every valid native value
  \<open>v\<close>, decoding the encoding gives the value back:
  \<^verbatim>\<open>decodeValue(T, encodeValue(T, v)) == v\<close>. The encoding exists, and it decodes to
  \<open>v\<close> with or without the \<^verbatim>\<open>0x\<close> marker, as long as it is shorter than
  \<open>2 ^ 256\<close> bytes, so that every length and offset in it fits its word.
\<close>

theorem codec_roundtrip:
  assumes "parseType T = Some ty" and "validValue ty v"
  shows "\<exists>h. encodeValue T v = Inr h \<and>
    (length h div 2 < wordLimit \<longrightarrow>
       decodeValue T h = Inr v \<and> decodeValue T (''0x'' @ h) = Inr v)"
proof -
  from roundtrip_typed [OF assms(2) parseType_supported [OF assms(1)], of "[]"]
  obtain h where h: "encodeTyped ty v = Some h" "isHex h"
    "length h div 2 < wordLimit \<longrightarrow> decodeTyped ty h = Some v" by auto
  have "stripHexPrefix h = h" using stripHexPrefix_isHex [OF h(2)] .
  moreover have "stripHexPrefix (''0x'' @ h) = h" by (simp add: stripHexPrefix_def)
  ultimately show ?thesis
    using h assms(1) by (simp add: encodeValue_def decodeValue_def)
qed

theorem codec_roundtrip_witness:
  "encodeValue ''string[]'' (VArr [VStr ''ab'', VStr ''c'']) =
     Inr ''0000000000000000000000000000000000000000000000000000000000000002000000000000000000000000000000000000000000000000000000000000004000000000000000000000000000000000000000000000000000000000000000800000000000000000000000000000000000000000000000000000000000000002616200000000000000000000000000000000000000000000000000000000000000000000000000000000000000000000000000000000000000000000000000016300000000000000000000000000000000000000000000000000000000000000''
 \<and> decodeValue ''string[]''
       ''0000000000000000000000000000000000000000000000000000000000000002000000000000000000000000000000000000000000000000000000000000004000000000000000000000000000000000000000000000000000000000000000800000000000000000000000000000000000000000000000000000000000000002616200000000000000000000000000000000000000000000000000000000000000000000000000000000000000000000000000000000000000000000000000016300000000000000000000000000000000000000000000000000000000000000'' =
     Inr (VArr [VStr ''ab'', VStr ''c''])
 \<and> encodeValue ''int8'' (VNum (- 1)) = Inr ''ffffffffffffffffffffffffffffffffffffffffffffffffffffffffffffffff''
 \<and> decodeValue ''int8'' ''ffffffffffffffffffffffffffffffffffffffffffffffffffffffffffffffff'' = Inr (VNum (- 1))"
proof -
  have p1: "parseType ''string[]'' = Some (DynArray TString)" by code_simp
  have v1: "validValue (DynArray TString) (VArr [VStr ''ab'', VStr ''c''])" by simp
  have e1: "encodeValue ''string[]'' (VArr [VStr ''ab'', VStr ''c'']) =
     Inr ''0000000000000000000000000000000000000000000000000000000000000002000000000000000000000000000000000000000000000000000000000000004000000000000000000000000000000000000000000000000000000000000000800000000000000000000000000000000000000000000000000000000000000002616200000000000000000000000000000000000000000000000000000000000000000000000000000000000000000000000000000000000000000000000000016300000000000000000000000000000000000000000000000000000000000000''"
    by code_simp
  have s1: "length ''0000000000000000000000000000000000000000000000000000000000000002000000000000000000000000000000000000000000000000000000000000004000000000000000000000000000000000000000000000000000000000000000800000000000000000000000000000000000000000000000000000000000000002616200000000000000000000000000000000000000000000000000000000000000000000000000000000000000000000000000000000000000000000000000016300000000000000000000000000000000000000000000000000000000000000'' div 2 < wordLimit"
    by (simp add: wordLimit_def)
  have p2: "parseType ''int8'' = Some (Elem (TInt 8))" by code_simp
  have v2: "validValue (Elem (TInt 8)) (VNum (- 1))" by simp
  have m: "nat (- 1 mod int wordLimit) = 115792089237316195423570985008687907853269984665640564039457584007913129639935"
    by (simp add: wordLimit_def)
  have h: "hexWord 115792089237316195423570985008687907853269984665640564039457584007913129639935 = ''ffffffffffffffffffffffffffffffffffffffffffffffffffffffffffffffff''"
    by (simp add: hexWord_def toHex_numeral hexDigit_def hexDigits_def)
  have e2: "encodeValue ''int8'' (VNum (- 1)) = Inr ''ffffffffffffffffffffffffffffffffffffffffffffffffffffffffffffffff''"
    by (simp add: encodeValue_def p2 m h)
  have s2: "length ''ffffffffffffffffffffffffffffffffffffffffffffffffffffffffffffffff'' div 2 < wordLimit"
    by (simp add: wordLimit_def)
  from codec_roundtrip [OF p1 v1] e1 s1
  have d1: "decodeValue ''string[]''
       ''0000000000000000000000000000000000000000000000000000000000000002000000000000000000000000000000000000000000000000000000000000004000000000000000000000000000000000000000000000000000000000000000800000000000000000000000000000000000000000000000000000000000000002616200000000000000000000000000000000000000000000000000000000000000000000000000000000000000000000000000000000000000000000000000016300000000000000000000000000000000000000000000000000000000000000'' =
     Inr (VArr [VStr ''ab'', VStr ''c''])"
    by auto
  from codec_roundtrip [OF p2 v2] e2 s2
  have d2: "decodeValue ''int8'' ''ffffffffffffffffffffffffffffffffffffffffffffffffffffffffffffffff'' = Inr (VNum (- 1))"
    by auto
  from e1 d1 e2 d2 show ?thesis by simp
qed

section \<open>Batches of log entries\<close>

text \<open>
  Claim C2. An entry whose event cannot be matched, or whose data blob fails to decode,
  does not abort the batch passed to \<^verbatim>\<open>decodeSearchLog\<close>: the entries before and
  after it are decoded as they are without it, no entry is dropped, and the unresolvable
  entry is returned raw, which is distinct from every decoded result.
\<close>

theorem decodeSearchLog_batch_resilient:
  assumes "unresolvable H contractMetadataMap entry"
  shows "decodeSearchLog H (before @ entry # after) contractMetadataMap stripPrefix =
           decodeSearchLog H before contractMetadataMap stripPrefix
           @ Unresolved entry # decodeSearchLog H after contractMetadataMap stripPrefix
       \<and> length (decodeSearchLog H (before @ entry # after) contractMetadataMap stripPrefix) =
           length (before @ entry # after)
       \<and> (\<forall>name values. Unresolved entry \<noteq> Decoded name values)"
proof -
  from assms have "decodeLogEntry H contractMetadataMap stripPrefix entry = Unresolved entry"
    by (auto simp: unresolvable_def decodeLogEntry_def split: option.splits sum.splits)
  then show ?thesis by (simp add: decodeSearchLog_def)
qed

lemma sample_unresolvable:
  "unresolvable sampleHash [(tokenAddress, tokenAbi)]
     (transferLog ''0x2222222222222222222222222222222222222222'')"
  by code_simp

lemma sample_decoded:
  "decodeSearchLog sampleHash [transferLog tokenAddress] [(tokenAddress, tokenAbi)] False =
     [Decoded ''Transfer''
        [(''from'', VStr ''0xaaaaaaaaaaaaaaaaaaaaaaaaaaaaaaaaaaaaaaaa''),
         (''to'', VStr ''0xbbbbbbbbbbbbbbbbbbbbbbbbbbbbbbbbbbbbbbbb''),
         (''value'', VNum 100)]]"
  by code_simp

theorem decodeSearchLog_batch_resilient_witness:
  "decodeSearchLog sampleHash
     [transferLog tokenAddress, transferLog ''0x2222222222222222222222222222222222222222'',
      transferLog tokenAddress]
     [(tokenAddress, tokenAbi)] False =
     [Decoded ''Transfer''
        [(''from'', VStr ''0xaaaaaaaaaaaaaaaaaaaaaaaaaaaaaaaaaaaaaaaa''),
         (''to'', VStr ''0xbbbbbbbbbbbbbbbbbbbbbbbbbbbbbbbbbbbbbbbb''),
         (''value'', VNum 100)],
      Unresolved (transferLog ''0x2222222222222222222222222222222222222222''),
      Decoded ''Transfer''
        [(''from'', VStr ''0xaaaaaaaaaaaaaaaaaaaaaaaaaaaaaaaaaaaaaaaa''),
         (''to'', VStr ''0xbbbbbbbbbbbbbbbbbbbbbbbbbbbbbbbbbbbbbbbb''),
         (''value'', VNum 100)]]"
  using decodeSearchLog_batch_resilient [OF sample_unresolvable,
      of "[transferLog tokenAddress]" "[transferLog tokenAddress]" False]
  by (simp add: sample_decoded)

section \<open>Calls of \<^verbatim>\<open>transfer\<close>\<close>

lemma parse_address: "parseType ''address'' = Some (Elem TAddress)"
  by code_simp

lemma parse_uint256: "parseType ''uint256'' = Some (Elem (TUint 256))"
  by code_simp

lemma hexWord_100: "hexWord 100 = ''0000000000000000000000000000000000000000000000000000000000000064''"
  by (simp add: hexWord_def toHex_numeral hexDigit_def hexDigits_def)

lemma hexWord_5: "hexWord 5 = ''0000000000000000000000000000000000000000000000000000000000000005''"
  by (simp add: hexWord_def toHex_numeral hexDigit_def hexDigits_def)

lemma length_sampleHash: "length (sampleHash s) = 64"
  by (simp add: sampleHash_def)

lemma encodeCall_transfer:
  assumes "filter (\<lambda>e. kind e = Function \<and> entryName e = ''transfer'') abi = [f]"
    and "map paramType (inputs f) = [''address'', ''uint256'']"
    and "isHex (stripHexPrefix a)" and "length (stripHexPrefix a) = 40"
    and "0 \<le> v" and "v < int wordLimit"
  shows "resolveMethod abi ''transfer'' [VStr a, VNum v] = Inr f"
    and "encodeCall H abi ''transfer'' [VStr a, VNum v] =
     Inr (selector H ''transfer'' [''address'', ''uint256'']
          @ (replicate 24 CHR ''0'' @ stripHexPrefix a) @ hexWord (nat v))"
proof -
  show r: "resolveMethod abi ''transfer'' [VStr a, VNum v] = Inr f"
    by (simp add: resolveMethod_def assms(1))
  from assms(2) have n: "length (inputs f) = 2"
    by (metis length_map length_Cons list.size(3) numeral_2_eq_2)
  have a: "encodeValue ''address'' (VStr a) = Inr (replicate 24 CHR ''0'' @ stripHexPrefix a)"
    using assms(3,4) by (simp add: encodeValue_def parse_address padLeft_def)
  have v: "encodeValue ''uint256'' (VNum v) = Inr (hexWord (nat v))"
    using assms(5,6) by (simp add: encodeValue_def parse_uint256)
  have p: "encodeArgs [''address'', ''uint256''] [VStr a, VNum v] =
      Inr [(False, replicate 24 CHR ''0'' @ stripHexPrefix a), (False, hexWord (nat v))]"
    by (simp add: a v isDynamicType_def parse_address parse_uint256)
  show "encodeCall H abi ''transfer'' [VStr a, VNum v] =
     Inr (selector H ''transfer'' [''address'', ''uint256'']
          @ (replicate 24 CHR ''0'' @ stripHexPrefix a) @ hexWord (nat v))"
    by (simp add: encodeCall_def r n assms(2) p headTail_def headLength_def
        del: encodeArgs.simps)
qed

lemma tokenAbi_transfer:
  "filter (\<lambda>e. kind e = Function \<and> entryName e = ''transfer'') tokenAbi = [hd tokenAbi]"
  "map paramType (inputs (hd tokenAbi)) = [''address'', ''uint256'']"
  by (simp_all add: tokenAbi_def)

lemma sample_addresses:
  "isHex (stripHexPrefix ''0xaaaaaaaaaaaaaaaaaaaaaaaaaaaaaaaaaaaaaaaa'')"
  "length (stripHexPrefix ''0xaaaaaaaaaaaaaaaaaaaaaaaaaaaaaaaaaaaaaaaa'') = 40"
  "isHex (stripHexPrefix ''bbbbbbbbbbbbbbbbbbbbbbbbbbbbbbbbbbbbbbbb'')"
  "length (stripHexPrefix ''bbbbbbbbbbbbbbbbbbbbbbbbbbbbbbbbbbbbbbbb'') = 40"
  by code_simp+

lemma small_amounts: "(100::int) < int wordLimit" "(5::int) < int wordLimit"
  by (simp_all add: wordLimit_def)

section \<open>Selectors\<close>

text \<open>
  Claim C3. The selector is a function of the method name and the ordered type list only.
  Two calls of \<^verbatim>\<open>encodeCall\<close> that resolve to signatures of the same name and
  the same input types yield payloads with the same 4-byte prefix, namely
  \<open>selector H name types\<close>, whatever the ABIs and the argument values are. The hash
  is assumed to give a digest of at least 4 bytes.
\<close>

theorem selector_deterministic:
  assumes "8 \<le> length (H (signatureText name (map paramType (inputs f))))"
    and "resolveMethod abi name args = Inr f"
    and "encodeCall H abi name args = Inr payload"
    and "resolveMethod abi' name args' = Inr f'"
    and "encodeCall H abi' name args' = Inr payload'"
    and "map paramType (inputs f') = map paramType (inputs f)"
  shows "take 8 payload = selector H name (map paramType (inputs f))
       \<and> take 8 payload' = take 8 payload"
proof -
  have l: "length (selector H name (map paramType (inputs f))) = 8"
    using assms(1) by (simp add: selector_def)
  from assms(2,3) obtain parts where
    "payload = selector H name (map paramType (inputs f)) @ headTail parts"
    by (auto simp: encodeCall_def split: if_splits sum.splits)
  with l have p: "take 8 payload = selector H name (map paramType (inputs f))" by simp
  from assms(4,5) obtain parts' where
    "payload' = selector H name (map paramType (inputs f')) @ headTail parts'"
    by (auto simp: encodeCall_def split: if_splits sum.splits)
  with l assms(6) have "take 8 payload' = selector H name (map paramType (inputs f))" by simp
  with p show ?thesis by simp
qed

theorem selector_deterministic_witness:
  "take 8 (selector sampleHash ''transfer'' [''address'', ''uint256'']
       @ (replicate 24 CHR ''0'' @ stripHexPrefix ''0xaaaaaaaaaaaaaaaaaaaaaaaaaaaaaaaaaaaaaaaa'') @ hexWord (nat 100))
     = selector sampleHash ''transfer'' [''address'', ''uint256'']
 \<and> take 8 (selector sampleHash ''transfer'' [''address'', ''uint256'']
       @ (replicate 24 CHR ''0'' @ stripHexPrefix ''bbbbbbbbbbbbbbbbbbbbbbbbbbbbbbbbbbbbbbbb'') @ hexWord (nat 5))
     = take 8 (selector sampleHash ''transfer'' [''address'', ''uint256'']
       @ (replicate 24 CHR ''0'' @ stripHexPrefix ''0xaaaaaaaaaaaaaaaaaaaaaaaaaaaaaaaaaaaaaaaa'') @ hexWord (nat 100))"
proof -
  note a1 = encodeCall_transfer(1) [OF tokenAbi_transfer sample_addresses(1,2) _ small_amounts(1)]
  note a2 = encodeCall_transfer(2) [where H = sampleHash,
      OF tokenAbi_transfer sample_addresses(1,2) _ small_amounts(1)]
  note b1 = encodeCall_transfer(1) [OF tokenAbi_transfer sample_addresses(3,4) _ small_amounts(2)]
  note b2 = encodeCall_transfer(2) [where H = sampleHash,
      OF tokenAbi_transfer sample_addresses(3,4) _ small_amounts(2)]
  have l: "8 \<le> length (sampleHash (signatureText ''transfer'' (map paramType (inputs (hd tokenAbi)))))"
    by (simp add: length_sampleHash)
  from selector_deterministic [where H = sampleHash, OF l a1 a2 b1 b2] show ?thesis
    by (simp add: tokenAbi_transfer)
qed

section \<open>Byte layout of an encoded call\<close>

text \<open>
  Claim C4. Encoding the call \<^verbatim>\<open>transfer(address,uint256)\<close> with an address hex
  string (with or without the \<^verbatim>\<open>0x\<close> marker) and the amount 100 gives exactly the
  4-byte selector, then the 32-byte word of the address left-padded with zeros, then the
  32-byte big-endian word of 100, in that order.
\<close>

theorem transfer_layout:
  assumes "filter (\<lambda>e. kind e = Function \<and> entryName e = ''transfer'') abi = [f]"
    and "map paramType (inputs f) = [''address'', ''uint256'']"
    and "isHex (stripHexPrefix a)" and "length (stripHexPrefix a) = 40"
    and "8 \<le> length (H (signatureText ''transfer'' [''address'', ''uint256'']))"
  shows "encodeCall H abi ''transfer'' [VStr a, VNum 100] =
     Inr (selector H ''transfer'' [''address'', ''uint256'']
          @ (replicate 24 CHR ''0'' @ stripHexPrefix a)
          @ ''0000000000000000000000000000000000000000000000000000000000000064'')
   \<and> length (selector H ''transfer'' [''address'', ''uint256'']) = 8
   \<and> length (replicate 24 CHR ''0'' @ stripHexPrefix a) = 64
   \<and> fromHex ''0000000000000000000000000000000000000000000000000000000000000064'' = Some 100"
proof -
  have "(100::int) < int wordLimit" by (simp add: wordLimit_def)
  from encodeCall_transfer(2) [where H = H, OF assms(1-4) _ this]
  have "encodeCall H abi ''transfer'' [VStr a, VNum 100] =
     Inr (selector H ''transfer'' [''address'', ''uint256'']
          @ (replicate 24 CHR ''0'' @ stripHexPrefix a) @ hexWord 100)"
    by simp
  moreover have "fromHex (hexWord 100) = Some 100"
    by (simp add: hexWord_def fromHex_toHex)
  ultimately show ?thesis
    using assms(4,5) by (simp add: hexWord_100 selector_def)
qed

theorem transfer_layout_witness:
  "encodeCall sampleHash tokenAbi ''transfer''
     [VStr ''0xaaaaaaaaaaaaaaaaaaaaaaaaaaaaaaaaaaaaaaaa'', VNum 100] =
     Inr (''7472616e'' @ ''000000000000000000000000aaaaaaaaaaaaaaaaaaaaaaaaaaaaaaaaaaaaaaaa''
          @ ''0000000000000000000000000000000000000000000000000000000000000064'')"
proof -
  have l: "8 \<le> length (sampleHash (signatureText ''transfer'' [''address'', ''uint256'']))"
    by (simp add: length_sampleHash)
  have s: "selector sampleHash ''transfer'' [''address'', ''uint256''] = ''7472616e''"
    by code_simp
  have z: "replicate 24 CHR ''0'' = ''000000000000000000000000''"
    by code_simp
  have x: "stripHexPrefix ''0xaaaaaaaaaaaaaaaaaaaaaaaaaaaaaaaaaaaaaaaa'' = ''aaaaaaaaaaaaaaaaaaaaaaaaaaaaaaaaaaaaaaaa''"
    by (simp add: stripHexPrefix_def)
  from transfer_layout [where H = sampleHash, OF tokenAbi_transfer sample_addresses(1,2) l]
  show ?thesis
    by (simp add: s x z)
qed

end
